theory Spec2Isabelle
  imports Complex_Main "HOL-Library.AList"
begin

section \<open>Python values used by the broker and the connection manager\<close>

text \<open>
  A Python \<open>dict\<close> keeps its keys in insertion order; it is an association list here.
  Storing under a key that is present replaces the value in place, storing under a new
  key appends it: that is \<open>AList.update\<close>.
\<close>

type_synonym ('k, 'v) dict = "('k \<times> 'v) list"

definition dict_get :: "('k, 'v) dict \<Rightarrow> 'k \<Rightarrow> 'v option" where
  "dict_get d k = map_of d k"

definition dict_has :: "('k, 'v) dict \<Rightarrow> 'k \<Rightarrow> bool" where
  "dict_has d k = (map_of d k \<noteq> None)"

definition dict_set :: "('k, 'v) dict \<Rightarrow> 'k \<Rightarrow> 'v \<Rightarrow> ('k, 'v) dict" where
  "dict_set d k v = AList.update k v d"

datatype py_error = KeyError | QueueFull | RuntimeError

text \<open>What a call does: it returns a value or it raises.\<close>

datatype 'a outcome = Returned 'a | Raised py_error

text \<open>\<open>del d[k]\<close> raises \<open>KeyError\<close> when the key is absent.\<close>

definition dict_del :: "('k, 'v) dict \<Rightarrow> 'k \<Rightarrow> py_error + ('k, 'v) dict" where
  "dict_del d k = (if dict_has d k then Inr (AList.delete k d) else Inl KeyError)"

text \<open>\<open>bool(d.get(k))\<close> for a dict of lists: a missing key and an empty list are both falsy.\<close>

definition truthy :: "'a list option \<Rightarrow> bool" where
  "truthy r = (case r of None \<Rightarrow> False | Some xs \<Rightarrow> xs \<noteq> [])"

text \<open>\<open>d.get(k, [])\<close>\<close>

definition get_list :: "('k, 'a list) dict \<Rightarrow> 'k \<Rightarrow> 'a list" where
  "get_list d k = (case dict_get d k of None \<Rightarrow> [] | Some xs \<Rightarrow> xs)"

datatype pyval = PStr string | PInt int | PFloat real | PBool bool | PNone

type_synonym message = "(string, pyval) dict"

subsection \<open>asyncio.Queue\<close>

record 'm queue =
  q_items :: "'m list"
  q_maxsize :: int

definition new_queue :: "int \<Rightarrow> 'm queue" where
  "new_queue n = \<lparr>q_items = [], q_maxsize = n\<rparr>"

definition qsize :: "'m queue \<Rightarrow> nat" where
  "qsize q = length (q_items q)"

text \<open>A queue whose \<open>maxsize\<close> is zero or negative is never full.\<close>

definition q_full :: "'m queue \<Rightarrow> bool" where
  "q_full q = (if q_maxsize q \<le> 0 then False else q_maxsize q \<le> int (qsize q))"

definition put_nowait :: "'m queue \<Rightarrow> 'm \<Rightarrow> py_error + 'm queue" where
  "put_nowait q m = (if q_full q then Inl QueueFull else Inr (q\<lparr>q_items := q_items q @ [m]\<rparr>))"

section \<open>core/message\_broker.py: MessageBroker\<close>

type_synonym task = nat

record stats =
  total_published :: nat
  total_processed :: nat
  total_failed :: nat
  topics_created :: nat
  total_consumed :: nat

text \<open>
  Coroutines that \<open>subscribe\<close> hands to \<open>asyncio.create_task\<close>: they run later, when the
  event loop gets to them.
\<close>

datatype scheduled = EnsureTopicExists string | EnsureTopicProcessing string

text \<open>
  The fields of the class, then what the model keeps of the event loop: the tasks that
  have finished (\<open>task.done()\<close>), the next fresh task, the coroutines scheduled and not
  yet run, and the calls of subscriber callbacks made so far, in the order they were made.
  \<open>message_timeout\<close> is stored by the constructor and never read; it is left out.
\<close>

record 'cb broker =
  topics :: "(string, message queue) dict"
  subscribers :: "(string, 'cb list) dict"
  message_handlers :: "(string, task list) dict"
  consumers :: "(string, task list) dict"
  max_queue_size :: int
  running :: bool
  broker_tasks :: "task list"
  message_stats :: stats
  loop_done :: "task list"
  loop_next :: task
  loop_scheduled :: "scheduled list"
  delivered :: "('cb \<times> message) list"

definition zero_stats :: stats where
  "zero_stats = \<lparr>total_published = 0, total_processed = 0, total_failed = 0,
     topics_created = 0, total_consumed = 0\<rparr>"

text \<open>\<open>__init__\<close>\<close>

definition init_broker :: "int \<Rightarrow> 'cb broker" where
  "init_broker n =
     \<lparr>topics = [], subscribers = [], message_handlers = [], consumers = [],
      max_queue_size = n, running = False, broker_tasks = [], message_stats = zero_stats,
      loop_done = [], loop_next = 0, loop_scheduled = [], delivered = []\<rparr>"

text \<open>\<open>_ensure_topic_exists\<close>\<close>

definition ensure_topic_exists :: "string \<Rightarrow> 'cb broker \<Rightarrow> 'cb broker" where
  "ensure_topic_exists topic st =
     (if \<not> dict_has (topics st) topic then
        st\<lparr>topics := dict_set (topics st) topic (new_queue (max_queue_size st)),
           subscribers := dict_set (subscribers st) topic [],
           message_handlers := dict_set (message_handlers st) topic [],
           consumers := dict_set (consumers st) topic [],
           message_stats := (message_stats st)
             \<lparr>topics_created := topics_created (message_stats st) + 1\<rparr>\<rparr>
      else st)"

text \<open>\<open>_ensure_topic_processing\<close>: a new dispatch task unless one is still active.\<close>

definition ensure_topic_processing :: "string \<Rightarrow> 'cb broker \<Rightarrow> 'cb broker" where
  "ensure_topic_processing topic st =
     (let st1 = (if \<not> dict_has (message_handlers st) topic
                 then st\<lparr>message_handlers := dict_set (message_handlers st) topic []\<rparr>
                 else st);
          hs = get_list (message_handlers st1) topic;
          active_tasks = filter (\<lambda>t. t \<notin> set (loop_done st1)) hs
      in if active_tasks = [] then
           st1\<lparr>message_handlers := dict_set (message_handlers st1) topic (hs @ [loop_next st1]),
               broker_tasks := broker_tasks st1 @ [loop_next st1],
               loop_next := loop_next st1 + 1\<rparr>
         else st1)"

text \<open>
  The two clock readings and the object identity that \<open>publish\<close> takes from its
  environment: \<open>time.time()\<close> for the timestamp, and the texts that the f-string of the
  message id renders for the second \<open>time.time()\<close> and for \<open>id(message)\<close>.
\<close>

record readings =
  rd_timestamp :: real
  rd_id_time :: string
  rd_id_obj :: string

definition broker_id :: "string \<Rightarrow> readings \<Rightarrow> string" where
  "broker_id topic rd = topic @ ''_'' @ rd_id_time rd @ ''_'' @ rd_id_obj rd"

definition enrich :: "string \<Rightarrow> message \<Rightarrow> readings \<Rightarrow> message" where
  "enrich topic msg rd =
     dict_set (dict_set (dict_set msg ''_broker_timestamp'' (PFloat (rd_timestamp rd)))
       ''_broker_topic'' (PStr topic)) ''_broker_id'' (PStr (broker_id topic rd))"

text \<open>
  \<open>publish\<close>, the body of its \<open>try\<close> (lines 112 to 143). \<open>self.topics[topic]\<close> raises
  \<open>KeyError\<close> on a missing key; \<open>QueueFull\<close> is caught inside.
\<close>

definition publish_try :: "string \<Rightarrow> message \<Rightarrow> readings \<Rightarrow> 'cb broker \<Rightarrow> bool outcome \<times> 'cb broker" where
  "publish_try topic msg rd st =
     (let st1 = ensure_topic_exists topic st;
          enriched_message = enrich topic msg rd;
          has_subscribers = truthy (dict_get (subscribers st1) topic);
          has_consumers = truthy (dict_get (consumers st1) topic)
      in if \<not> has_subscribers \<and> \<not> has_consumers then (Returned False, st1)
         else (case dict_get (topics st1) topic of
                 None \<Rightarrow> (Raised KeyError, st1)
               | Some q \<Rightarrow>
                   (case put_nowait q enriched_message of
                      Inl e \<Rightarrow> (Returned False, st1)
                    | Inr q' \<Rightarrow>
                        (Returned True,
                         ensure_topic_processing topic
                           (st1\<lparr>topics := dict_set (topics st1) topic q',
                                message_stats := (message_stats st1)
                                  \<lparr>total_published := total_published (message_stats st1) + 1\<rparr>\<rparr>)))))"

text \<open>\<open>publish\<close>: the running check, then the \<open>try\<close> with its catch-all handler.\<close>

definition publish :: "string \<Rightarrow> message \<Rightarrow> readings \<Rightarrow> 'cb broker \<Rightarrow> bool outcome \<times> 'cb broker" where
  "publish topic msg rd st =
     (if \<not> running st then (Returned False, st)
      else (case publish_try topic msg rd st of
              (Raised e, st') \<Rightarrow> (Returned False, st')
            | (Returned b, st') \<Rightarrow> (Returned b, st')))"

text \<open>The number of messages waiting on a topic; a topic that does not exist has none.\<close>

definition queue_len :: "'cb broker \<Rightarrow> string \<Rightarrow> nat" where
  "queue_len st topic = (case dict_get (topics st) topic of None \<Rightarrow> 0 | Some q \<Rightarrow> qsize q)"

definition queue_items :: "'cb broker \<Rightarrow> string \<Rightarrow> message list" where
  "queue_items st topic = (case dict_get (topics st) topic of None \<Rightarrow> [] | Some q \<Rightarrow> q_items q)"

text \<open>\<open>start\<close>: the standard topics are the values of \<open>InternalMessageType\<close>.\<close>

definition standard_topics :: "string list" where
  "standard_topics =
     [''InternalMessageType.USER_QUERY'', ''InternalMessageType.QUERY_RESPONSE'',
      ''InternalMessageType.SYSTEM_STATUS'', ''InternalMessageType.AGENT_STATUS'',
      ''InternalMessageType.HEARTBEAT'']"

definition start :: "'cb broker \<Rightarrow> 'cb broker" where
  "start st = (if running st then st
               else fold ensure_topic_exists standard_topics (st\<lparr>running := True\<rparr>))"

text \<open>
  \<open>stop\<close>: every task of the three collections that is not done is cancelled, the
  \<open>gather\<close> waits for all of them, then the five collections are cleared. The model is
  of the runs in which the \<open>gather\<close> returns; the tasks it waited for are then done.
\<close>

definition all_tasks :: "'cb broker \<Rightarrow> task list" where
  "all_tasks st = concat (map snd (message_handlers st)) @ concat (map snd (consumers st))
                  @ broker_tasks st"

definition stop :: "'cb broker \<Rightarrow> 'cb broker" where
  "stop st =
     (if \<not> running st then st
      else st\<lparr>running := False,
              loop_done := remdups (loop_done st @ all_tasks st),
              topics := [], subscribers := [], message_handlers := [], consumers := [],
              broker_tasks := []\<rparr>)"

text \<open>
  \<open>subscribe\<close> and \<open>unsubscribe\<close>. Both bodies sit in a \<open>try\<close> whose handler returns
  False; nothing in them raises once an event loop is running, which \<open>running\<close> implies.
  \<open>x in xs\<close> and \<open>xs.remove(x)\<close> compare callbacks by equality.
\<close>

definition subscribe :: "string \<Rightarrow> 'cb \<Rightarrow> 'cb broker \<Rightarrow> bool \<times> 'cb broker" where
  "subscribe topic callback st =
     (if \<not> running st then (False, st)
      else
        (let st0 = st\<lparr>loop_scheduled := loop_scheduled st @ [EnsureTopicExists topic]\<rparr>;
             st1 = (if \<not> dict_has (subscribers st0) topic
                    then st0\<lparr>subscribers := dict_set (subscribers st0) topic []\<rparr>
                    else st0);
             subs = get_list (subscribers st1) topic
         in if callback \<notin> set subs then
              (True, st1\<lparr>subscribers := dict_set (subscribers st1) topic (subs @ [callback]),
                         loop_scheduled := loop_scheduled st1 @ [EnsureTopicProcessing topic]\<rparr>)
            else (False, st1)))"

definition unsubscribe :: "string \<Rightarrow> 'cb \<Rightarrow> 'cb broker \<Rightarrow> bool \<times> 'cb broker" where
  "unsubscribe topic callback st =
     (if dict_has (subscribers st) topic \<and> callback \<in> set (get_list (subscribers st) topic)
      then (True, st\<lparr>subscribers := dict_set (subscribers st) topic
                        (remove1 callback (get_list (subscribers st) topic))\<rparr>)
      else (False, st))"

text \<open>The event loop runs the first coroutine that \<open>subscribe\<close> scheduled.\<close>

definition run_scheduled :: "'cb broker \<Rightarrow> 'cb broker" where
  "run_scheduled st =
     (case loop_scheduled st of
        [] \<Rightarrow> st
      | EnsureTopicExists t # cs \<Rightarrow> ensure_topic_exists t (st\<lparr>loop_scheduled := cs\<rparr>)
      | EnsureTopicProcessing t # cs \<Rightarrow> ensure_topic_processing t (st\<lparr>loop_scheduled := cs\<rparr>))"

text \<open>
  \<open>consume\<close> is a generator; its three parts are the set-up before the loop, one pass of
  the loop at the moment \<open>wait_for(queue.get())\<close> resolves (with a message when the queue
  has one, with \<open>TimeoutError\<close> when it is still empty after the wait), and the
  \<open>finally\<close> block. \<open>me\<close> is \<open>asyncio.current_task()\<close>.
\<close>

definition consume_begin :: "string \<Rightarrow> task \<Rightarrow> 'cb broker \<Rightarrow> bool \<times> 'cb broker" where
  "consume_begin topic me st =
     (if \<not> running st then (False, st)
      else
        (let st1 = ensure_topic_exists topic st;
             st2 = (if \<not> dict_has (consumers st1) topic
                    then st1\<lparr>consumers := dict_set (consumers st1) topic []\<rparr>
                    else st1)
         in (True, st2\<lparr>consumers := dict_set (consumers st2) topic
                            (get_list (consumers st2) topic @ [me])\<rparr>)))"

datatype consume_step = Yielded message | Idle | Ended

definition consume_pass :: "string \<Rightarrow> bool \<Rightarrow> 'cb broker \<Rightarrow> consume_step \<times> 'cb broker" where
  "consume_pass topic timeout_given st =
     (if \<not> running st then (Ended, st)
      else (case dict_get (topics st) topic of
              None \<Rightarrow> (Ended, st)
            | Some q \<Rightarrow>
                (case q_items q of
                   [] \<Rightarrow> (if timeout_given then (Ended, st) else (Idle, st))
                 | m # ms \<Rightarrow>
                     (Yielded m,
                      st\<lparr>topics := dict_set (topics st) topic (q\<lparr>q_items := ms\<rparr>),
                         message_stats := (message_stats st)
                           \<lparr>total_consumed := total_consumed (message_stats st) + 1\<rparr>\<rparr>))))"

definition consume_finally :: "string \<Rightarrow> task \<Rightarrow> 'cb broker \<Rightarrow> 'cb broker" where
  "consume_finally topic me st =
     (if dict_has (consumers st) topic \<and> me \<in> set (get_list (consumers st) topic)
      then st\<lparr>consumers := dict_set (consumers st) topic
                 (remove1 me (get_list (consumers st) topic))\<rparr>
      else st)"

text \<open>
  \<open>consume_one\<close>: up to the \<open>await\<close> of \<open>wait_for(queue.get(), timeout)\<close>, and from the
  moment it resolves. An absent result of the first part is the early \<open>return None\<close>.
\<close>

definition consume_one_enter :: "string \<Rightarrow> 'cb broker \<Rightarrow> 'cb broker option" where
  "consume_one_enter topic st =
     (if \<not> running st then None else Some (ensure_topic_exists topic st))"

definition consume_one_resume :: "string \<Rightarrow> 'cb broker \<Rightarrow> message option \<times> 'cb broker" where
  "consume_one_resume topic st =
     (case dict_get (topics st) topic of
        None \<Rightarrow> (None, st)
      | Some q \<Rightarrow>
          (case q_items q of
             [] \<Rightarrow> (None, st)
           | m # ms \<Rightarrow>
               (Some m,
                st\<lparr>topics := dict_set (topics st) topic (q\<lparr>q_items := ms\<rparr>),
                   message_stats := (message_stats st)
                     \<lparr>total_consumed := total_consumed (message_stats st) + 1\<rparr>\<rparr>)))"

definition consume_one :: "string \<Rightarrow> 'cb broker \<Rightarrow> message option \<times> 'cb broker" where
  "consume_one topic st =
     (case consume_one_enter topic st of
        None \<Rightarrow> (None, st)
      | Some st1 \<Rightarrow> consume_one_resume topic st1)"

subsection \<open>Dispatch to subscribers\<close>

text \<open>What a subscriber callback does with a message: it returns, or it raises an \<open>Exception\<close>.\<close>

datatype cb_result = Returns | Raises

text \<open>
  An entry of the list that \<open>asyncio.gather(..., return_exceptions=True)\<close> returns: the
  value a task returned, or the exception it ended with.
\<close>

datatype gathered = Value bool | ExceptionObj

fun is_exception :: "gathered \<Rightarrow> bool" where
  "is_exception (Value b) = False"
| "is_exception ExceptionObj = True"

text \<open>\<open>_call_subscriber\<close>: the handler turns an exception of the callback into False.\<close>

definition call_subscriber :: "('cb \<Rightarrow> message \<Rightarrow> cb_result) \<Rightarrow> 'cb \<Rightarrow> message \<Rightarrow> gathered" where
  "call_subscriber behave subscriber msg =
     (case behave subscriber msg of Returns \<Rightarrow> Value True | Raises \<Rightarrow> Value False)"

text \<open>
  \<open>_process_message\<close>. One task per subscriber runs \<open>_call_subscriber\<close>; the tasks run
  concurrently, so the calls of one message are logged in the order \<open>order subs\<close> that
  the event loop happens to give them. \<open>results\<close> is in the order of \<open>subs\<close>.
\<close>

definition process_message ::
  "('cb list \<Rightarrow> 'cb list) \<Rightarrow> ('cb \<Rightarrow> message \<Rightarrow> cb_result) \<Rightarrow> message \<Rightarrow> 'cb list
     \<Rightarrow> 'cb broker \<Rightarrow> 'cb broker" where
  "process_message order behave msg subs st =
     (if subs = [] then st
      else
        (let results = map (\<lambda>s. call_subscriber behave s msg) subs;
             successful = length (filter (\<lambda>r. \<not> is_exception r) results);
             failed = length results - successful
         in st\<lparr>message_stats := (message_stats st)
                  \<lparr>total_processed := total_processed (message_stats st) + successful,
                   total_failed := total_failed (message_stats st) + failed\<rparr>,
                delivered := delivered st @ map (\<lambda>s. (s, msg)) (order subs)\<rparr>))"

datatype loop_ctl = Continue | Break

text \<open>
  \<open>_process_topic_messages\<close>, one pass of its loop. The pass reads the subscriber list
  and tests it at lines 260 and 261, before it waits; \<open>tested\<close> is the result of that
  test, True when the list was not empty. The rest of the pass runs in the state \<open>st\<close>
  that the other tasks have left when the \<open>sleep\<close> or the
  \<open>wait_for(queue.get(), 1.0)\<close> resolves. The list read at line 260 is the list object
  stored for the topic, so \<open>_process_message\<close> sees it as \<open>unsubscribe\<close> has left it
  meanwhile: a message taken for a list that has become empty is dropped at line 299.
  A wait that times out ends the loop when the topic has no subscriber left. The task
  also ends when the broker has been stopped, and when \<open>self.topics[topic]\<close> raised
  at its start.
\<close>

definition dispatch_pass ::
  "('cb list \<Rightarrow> 'cb list) \<Rightarrow> ('cb \<Rightarrow> message \<Rightarrow> cb_result) \<Rightarrow> string \<Rightarrow> bool
     \<Rightarrow> 'cb broker \<Rightarrow> loop_ctl \<times> 'cb broker" where
  "dispatch_pass order behave topic tested st =
     (case dict_get (topics st) topic of
        None \<Rightarrow> (Break, st)
      | Some q \<Rightarrow>
          if \<not> running st then (Break, st)
          else if \<not> tested then (Continue, st)
          else (case q_items q of
                  [] \<Rightarrow> (if \<not> truthy (dict_get (subscribers st) topic)
                         then (Break, st) else (Continue, st))
                | m # ms \<Rightarrow>
                    (Continue,
                     process_message order behave m (get_list (subscribers st) topic)
                       (st\<lparr>topics := dict_set (topics st) topic (q\<lparr>q_items := ms\<rparr>)\<rparr>))))"

text \<open>The handler of lines 286 to 288, for an exception inside a pass.\<close>

definition dispatch_error :: "'cb broker \<Rightarrow> 'cb broker" where
  "dispatch_error st =
     st\<lparr>message_stats := (message_stats st)
          \<lparr>total_failed := total_failed (message_stats st) + 1\<rparr>\<rparr>"

subsection \<open>Runs of the broker\<close>

datatype 'cb op =
    OpStart
  | OpStop
  | OpPublish string message readings
  | OpSubscribe string 'cb
  | OpUnsubscribe string 'cb
  | OpConsumeBegin string task
  | OpConsumePass string bool
  | OpConsumeFinally string task
  | OpConsumeOne string
  | OpDispatch string bool
  | OpDispatchError
  | OpRunScheduled

fun exec_op ::
  "('cb list \<Rightarrow> 'cb list) \<Rightarrow> ('cb \<Rightarrow> message \<Rightarrow> cb_result) \<Rightarrow> 'cb op
     \<Rightarrow> 'cb broker \<Rightarrow> 'cb broker" where
  "exec_op order behave OpStart st = start st"
| "exec_op order behave OpStop st = stop st"
| "exec_op order behave (OpPublish t m rd) st = snd (publish t m rd st)"
| "exec_op order behave (OpSubscribe t c) st = snd (subscribe t c st)"
| "exec_op order behave (OpUnsubscribe t c) st = snd (unsubscribe t c st)"
| "exec_op order behave (OpConsumeBegin t me) st = snd (consume_begin t me st)"
| "exec_op order behave (OpConsumePass t b) st = snd (consume_pass t b st)"
| "exec_op order behave (OpConsumeFinally t me) st = consume_finally t me st"
| "exec_op order behave (OpConsumeOne t) st = snd (consume_one t st)"
| "exec_op order behave (OpDispatch t b) st = snd (dispatch_pass order behave t b st)"
| "exec_op order behave OpDispatchError st = dispatch_error st"
| "exec_op order behave OpRunScheduled st = run_scheduled st"

fun exec_ops ::
  "('cb list \<Rightarrow> 'cb list) \<Rightarrow> ('cb \<Rightarrow> message \<Rightarrow> cb_result) \<Rightarrow> 'cb op list
     \<Rightarrow> 'cb broker \<Rightarrow> 'cb broker" where
  "exec_ops order behave [] st = st"
| "exec_ops order behave (x # xs) st = exec_ops order behave xs (exec_op order behave x st)"

text \<open>The dispatch tasks of a topic that are not done.\<close>

definition active_handlers :: "'cb broker \<Rightarrow> string \<Rightarrow> task list" where
  "active_handlers st topic =
     filter (\<lambda>t. t \<notin> set (loop_done st)) (get_list (message_handlers st) topic)"

text \<open>
  What one subscriber has been called with, in order; the operations of a run that
  concern one topic only (publishes to it and passes of its dispatch loop); the enriched
  messages of the publishes of a run that returned True; and a state in which the
  topic exists, the broker runs and the subscribers of the topic are \<open>subs\<close>.
\<close>

definition view :: "'cb \<Rightarrow> ('cb \<times> message) list \<Rightarrow> message list" where
  "view s calls = map snd (filter (\<lambda>e. fst e = s) calls)"

fun topic_op :: "string \<Rightarrow> 'cb op \<Rightarrow> bool" where
  "topic_op topic (OpPublish t m rd) = (t = topic)"
| "topic_op topic (OpDispatch t b) = (t = topic)"
| "topic_op topic x = False"

fun accepted ::
  "('cb list \<Rightarrow> 'cb list) \<Rightarrow> ('cb \<Rightarrow> message \<Rightarrow> cb_result) \<Rightarrow> string \<Rightarrow> 'cb op list
     \<Rightarrow> 'cb broker \<Rightarrow> message list" where
  "accepted order behave topic [] st = []"
| "accepted order behave topic (OpPublish t m rd # xs) st =
     (if t = topic \<and> fst (publish t m rd st) = Returned True then [enrich t m rd] else [])
     @ accepted order behave topic xs (exec_op order behave (OpPublish t m rd) st)"
| "accepted order behave topic (x # xs) st =
     accepted order behave topic xs (exec_op order behave x st)"

definition ready :: "string \<Rightarrow> 'cb list \<Rightarrow> 'cb broker \<Rightarrow> bool" where
  "ready topic subs st =
     (running st \<and> dict_has (topics st) topic \<and> dict_get (subscribers st) topic = Some subs)"

text \<open>No counter of the second record is below its value in the first.\<close>

definition stats_le :: "stats \<Rightarrow> stats \<Rightarrow> bool" where
  "stats_le a b = (total_published a \<le> total_published b \<and> total_processed a \<le> total_processed b
     \<and> total_failed a \<le> total_failed b \<and> topics_created a \<le> topics_created b
     \<and> total_consumed a \<le> total_consumed b)"

section \<open>server/websocket\_handler.py: ConnectionManager\<close>

text \<open>
  What a write to a transport, or its close, does: it succeeds, it raises
  \<open>WebSocketDisconnect\<close>, or it raises another \<open>Exception\<close>. The transport is outside
  the program, so each call takes its result as an argument.
\<close>

datatype io = IoOk | IoDisconnect | IoError

text \<open>What has reached a transport: a text, a ping, a disconnect notice, a close.\<close>

datatype frame =
    Text string
  | Ping real string
  | DisconnectNotice string real
  | Close int string

text \<open>
  The fields of the class, then the tasks that are finished or cancelled, the next fresh
  task, and what was sent on each transport. Clock readings and durations are the real
  numbers that the floats denote.
\<close>

record 'ws conn_manager =
  active_connections :: "(string, 'ws) dict"
  user_heartbeats :: "(string, real) dict"
  heartbeat_tasks :: "(string, task) dict"
  heartbeat_interval :: real
  ping_timeout :: real
  heartbeat_running :: bool
  main_heartbeat_task :: "task option"
  cm_done :: "task list"
  cm_next :: task
  wire :: "('ws \<times> frame) list"

definition init_manager :: "real \<Rightarrow> real \<Rightarrow> 'ws conn_manager" where
  "init_manager interval grace =
     \<lparr>active_connections = [], user_heartbeats = [], heartbeat_tasks = [],
      heartbeat_interval = interval, ping_timeout = grace, heartbeat_running = False,
      main_heartbeat_task = None, cm_done = [], cm_next = 0, wire = []\<rparr>"

text \<open>\<open>task.cancel()\<close> under \<open>if not task.done()\<close>\<close>

definition cancel_task :: "task \<Rightarrow> task list \<Rightarrow> task list" where
  "cancel_task t done = (if t \<notin> set done then done @ [t] else done)"

text \<open>\<open>_cleanup_user_connection\<close>; each \<open>del\<close> is guarded by its \<open>in\<close> test.\<close>

definition cleanup_user_connection ::
  "string \<Rightarrow> 'ws conn_manager \<Rightarrow> py_error + 'ws conn_manager" where
  "cleanup_user_connection user_id st =
     (case (if dict_has (active_connections st) user_id
            then dict_del (active_connections st) user_id
            else Inr (active_connections st)) of
        Inl e \<Rightarrow> Inl e
      | Inr ac \<Rightarrow>
          (case (if dict_has (user_heartbeats st) user_id
                 then dict_del (user_heartbeats st) user_id
                 else Inr (user_heartbeats st)) of
             Inl e \<Rightarrow> Inl e
           | Inr hb \<Rightarrow>
               (case dict_get (heartbeat_tasks st) user_id of
                  None \<Rightarrow> Inr (st\<lparr>active_connections := ac, user_heartbeats := hb\<rparr>)
                | Some t \<Rightarrow>
                    (case dict_del (heartbeat_tasks st) user_id of
                       Inl e \<Rightarrow> Inl e
                     | Inr ht \<Rightarrow>
                         Inr (st\<lparr>active_connections := ac, user_heartbeats := hb,
                                 heartbeat_tasks := ht,
                                 cm_done := cancel_task t (cm_done st)\<rparr>)))))"

text \<open>\<open>_start_heartbeat_for_user\<close> and \<open>_start_main_heartbeat\<close>\<close>

definition start_heartbeat_for_user :: "string \<Rightarrow> 'ws conn_manager \<Rightarrow> 'ws conn_manager" where
  "start_heartbeat_for_user user_id st =
     (let st1 = (case dict_get (heartbeat_tasks st) user_id of
                   None \<Rightarrow> st
                 | Some t \<Rightarrow> st\<lparr>cm_done := cancel_task t (cm_done st)\<rparr>)
      in st1\<lparr>heartbeat_tasks := dict_set (heartbeat_tasks st1) user_id (cm_next st1),
             cm_next := cm_next st1 + 1\<rparr>)"

definition start_main_heartbeat :: "'ws conn_manager \<Rightarrow> 'ws conn_manager" where
  "start_main_heartbeat st =
     (if heartbeat_running st then st
      else st\<lparr>heartbeat_running := True, main_heartbeat_task := Some (cm_next st),
              cm_next := cm_next st + 1\<rparr>)"

definition stop_main_heartbeat :: "'ws conn_manager \<Rightarrow> 'ws conn_manager" where
  "stop_main_heartbeat st =
     (let st1 = st\<lparr>heartbeat_running := False\<rparr>
      in case main_heartbeat_task st1 of
           None \<Rightarrow> st1
         | Some t \<Rightarrow> st1\<lparr>cm_done := cancel_task t (cm_done st1)\<rparr>)"

text \<open>
  \<open>connect\<close>, after \<open>websocket.accept()\<close> has returned: \<open>user_id\<close> is the text of the
  fresh \<open>uuid4\<close>, \<open>now\<close> the clock reading.
\<close>

definition connect :: "'ws \<Rightarrow> string \<Rightarrow> real \<Rightarrow> 'ws conn_manager \<Rightarrow> 'ws conn_manager" where
  "connect websocket user_id now st =
     (let st1 = st\<lparr>active_connections := dict_set (active_connections st) user_id websocket,
                   user_heartbeats := dict_set (user_heartbeats st) user_id now\<rparr>;
          st2 = start_heartbeat_for_user user_id st1
      in if \<not> heartbeat_running st2 then start_main_heartbeat st2 else st2)"

text \<open>\<open>update_user_heartbeat\<close>\<close>

definition update_user_heartbeat :: "string \<Rightarrow> real \<Rightarrow> 'ws conn_manager \<Rightarrow> 'ws conn_manager" where
  "update_user_heartbeat user_id now st =
     (if dict_has (active_connections st) user_id
      then st\<lparr>user_heartbeats := dict_set (user_heartbeats st) user_id now\<rparr>
      else st)"

text \<open>
  \<open>send_personal_message\<close>: the handler of a failed write calls the clean-up, whose
  exception, if it had one, would leave the function.
\<close>

definition send_personal_message ::
  "string \<Rightarrow> string \<Rightarrow> io \<Rightarrow> 'ws conn_manager \<Rightarrow> bool outcome \<times> 'ws conn_manager" where
  "send_personal_message text user_id send_io st =
     (case dict_get (active_connections st) user_id of
        None \<Rightarrow> (Returned False, st)
      | Some websocket \<Rightarrow>
          (if send_io = IoOk then (Returned True, st\<lparr>wire := wire st @ [(websocket, Text text)]\<rparr>)
           else (case cleanup_user_connection user_id st of
                   Inl e \<Rightarrow> (Raised e, st)
                 | Inr st' \<Rightarrow> (Returned False, st'))))"

text \<open>
  \<open>_force_disconnect_user\<close>. The notice is sent under a bare \<open>except\<close>; the close and the
  clean-up are under the outer handler of line 230, which only logs.
\<close>

definition force_disconnect_user ::
  "string \<Rightarrow> string \<Rightarrow> real \<Rightarrow> io \<Rightarrow> io \<Rightarrow> 'ws conn_manager \<Rightarrow> 'ws conn_manager" where
  "force_disconnect_user user_id reason now notice_io close_io st =
     (case dict_get (active_connections st) user_id of
        None \<Rightarrow>
          (case cleanup_user_connection user_id st of Inl e \<Rightarrow> st | Inr st' \<Rightarrow> st')
      | Some websocket \<Rightarrow>
          (let st1 = (if notice_io = IoOk
                      then st\<lparr>wire := wire st @ [(websocket, DisconnectNotice reason now)]\<rparr>
                      else st)
           in if close_io = IoOk then
                (let st2 = st1\<lparr>wire := wire st1 @ [(websocket, Close 1011 reason)]\<rparr>
                 in case cleanup_user_connection user_id st2 of Inl e \<Rightarrow> st2 | Inr st' \<Rightarrow> st')
              else st1))"

text \<open>
  \<open>_user_heartbeat_loop\<close>, one pass in two parts: from the loop test to the \<open>sleep\<close>, and
  from the end of the \<open>sleep\<close> to the end of the pass. Other tasks run during the
  \<open>sleep\<close>, so the second part starts from the state they left. \<open>now\<close> is the clock
  reading of the pass (lines 164 and 175); \<open>notice_time\<close> is the later reading that
  \<open>_force_disconnect_user\<close> takes for its notice at line 216.
\<close>

definition heartbeat_ping ::
  "string \<Rightarrow> real \<Rightarrow> real \<Rightarrow> io \<Rightarrow> io \<Rightarrow> io \<Rightarrow> 'ws conn_manager
     \<Rightarrow> loop_ctl \<times> 'ws conn_manager" where
  "heartbeat_ping user_id now notice_time ping_io notice_io close_io st =
     (if \<not> (dict_has (active_connections st) user_id \<and> heartbeat_running st) then (Break, st)
      else (case dict_get (active_connections st) user_id of
              None \<Rightarrow> (Break, st)
            | Some websocket \<Rightarrow>
                (case ping_io of
                   IoOk \<Rightarrow> (Continue, st\<lparr>wire := wire st @ [(websocket, Ping now user_id)]\<rparr>)
                 | IoDisconnect \<Rightarrow> (Break, st)
                 | IoError \<Rightarrow>
                     (Break, force_disconnect_user user_id ''heartbeat_error'' notice_time
                               notice_io close_io st))))"

text \<open>\<open>self.user_heartbeats.get(user_id, 0)\<close>\<close>

definition last_heartbeat :: "'ws conn_manager \<Rightarrow> string \<Rightarrow> real" where
  "last_heartbeat st user_id =
     (case dict_get (user_heartbeats st) user_id of None \<Rightarrow> 0 | Some t \<Rightarrow> t)"

text \<open>
  Python's floats are binary64: the difference and the sum of line 175 are the exact
  results rounded to the nearest float. Clock readings and durations are the real
  numbers that the floats denote, and the two rounded operations are arguments of the
  check, so that nothing below depends on how they round. The comparison of two floats
  is exact.
\<close>

record float_arith =
  fl_sub :: "real \<Rightarrow> real \<Rightarrow> real"
  fl_add :: "real \<Rightarrow> real \<Rightarrow> real"

definition heartbeat_check ::
  "float_arith \<Rightarrow> string \<Rightarrow> real \<Rightarrow> real \<Rightarrow> io \<Rightarrow> io \<Rightarrow> 'ws conn_manager
     \<Rightarrow> loop_ctl \<times> 'ws conn_manager" where
  "heartbeat_check fl user_id now notice_time notice_io close_io st =
     (let last_hb = last_heartbeat st user_id
      in if fl_sub fl now last_hb > fl_add fl (heartbeat_interval st) (ping_timeout st)
         then (Break, force_disconnect_user user_id ''heartbeat_timeout'' notice_time
                        notice_io close_io st)
         else (Continue, st))"

text \<open>
  A run of the loop of one connection. Each pass has the clock reading and the result
  of its ping, the times at which \<open>update_user_heartbeat\<close> is called for the
  connection during the sleep, the clock reading of the check, and the reading and
  results of a forced disconnect, should there be one. The loop ends at the first pass
  that breaks. A run is acknowledged in time when every ping is written and, at every
  check, the comparison of line 175 against the latest update is false. A connection
  is supervised when it is registered and the heartbeat is running.
\<close>

record hb_pass =
  p_ping_time :: real
  p_ping_io :: io
  p_acks :: "real list"
  p_check_time :: real
  p_notice_time :: real
  p_notice_io :: io
  p_close_io :: io

fun heartbeat_loop ::
  "float_arith \<Rightarrow> string \<Rightarrow> hb_pass list \<Rightarrow> 'ws conn_manager \<Rightarrow> 'ws conn_manager" where
  "heartbeat_loop fl user_id [] st = st"
| "heartbeat_loop fl user_id (p # ps) st =
     (case heartbeat_ping user_id (p_ping_time p) (p_notice_time p) (p_ping_io p)
             (p_notice_io p) (p_close_io p) st of
        (Break, st1) \<Rightarrow> st1
      | (Continue, st1) \<Rightarrow>
          (case heartbeat_check fl user_id (p_check_time p) (p_notice_time p)
                  (p_notice_io p) (p_close_io p)
                  (fold (update_user_heartbeat user_id) (p_acks p) st1) of
             (Break, st2) \<Rightarrow> st2
           | (Continue, st2) \<Rightarrow> heartbeat_loop fl user_id ps st2))"

fun acked_in_time :: "float_arith \<Rightarrow> real \<Rightarrow> real \<Rightarrow> real \<Rightarrow> hb_pass list \<Rightarrow> bool" where
  "acked_in_time fl interval grace last_hb [] = True"
| "acked_in_time fl interval grace last_hb (p # ps) =
     (p_ping_io p = IoOk
      \<and> (let l = (if p_acks p = [] then last_hb else last (p_acks p))
         in \<not> fl_sub fl (p_check_time p) l > fl_add fl interval grace
            \<and> acked_in_time fl interval grace l ps))"

definition hb_registered :: "'ws conn_manager \<Rightarrow> string \<Rightarrow> 'ws \<Rightarrow> bool" where
  "hb_registered st user_id websocket =
     (dict_get (active_connections st) user_id = Some websocket \<and> heartbeat_running st)"

section \<open>Concrete inputs\<close>

text \<open>A broker after \<open>start\<close>, a payload, and the readings of one publish.\<close>

definition started :: "nat broker" where
  "started = start (init_broker 1000)"

definition hi_msg :: message where
  "hi_msg = [(''text'', PStr ''hi'')]"

definition rd1 :: readings where
  "rd1 = \<lparr>rd_timestamp = 100, rd_id_time = ''100.0'', rd_id_obj = ''140001''\<rparr>"

definition uq :: string where
  "uq = ''InternalMessageType.USER_QUERY''"

text \<open>A broker whose queues hold one message, with one subscriber and the queue full.\<close>

definition small_full :: "nat broker" where
  "small_full = snd (publish uq hi_msg rd1 (snd (subscribe uq 7 (start (init_broker 1)))))"

text \<open>A started broker with one subscriber, and the readings of a later publish.\<close>

definition one_sub :: "nat broker" where
  "one_sub = snd (subscribe uq 7 started)"

definition rd2 :: readings where
  "rd2 = \<lparr>rd_timestamp = 101, rd_id_time = ''101.5'', rd_id_obj = ''140001''\<rparr>"

text \<open>
  A connection manager with two connections accepted at times 0 and 5, and the float
  operations on the whole numbers below 2 to the power 53, where binary64 does not
  round: all the numbers of the examples are such.
\<close>

definition whole_numbers :: float_arith where
  "whole_numbers = \<lparr>fl_sub = (\<lambda>a b. a - b), fl_add = (\<lambda>a b. a + b)\<rparr>"

definition two_conns :: "nat conn_manager" where
  "two_conns = connect 2 ''u2'' 5 (connect 1 ''u1'' 0 (init_manager 30 10))"

text \<open>
  Three passes of the loop of \<open>u2\<close>: acknowledged at 6 during the first sleep, not at
  all during the second, at 50 and 70 during the third.
\<close>

definition three_passes :: "hb_pass list" where
  "three_passes =
     [\<lparr>p_ping_time = 5, p_ping_io = IoOk, p_acks = [6], p_check_time = 35,
       p_notice_time = 35, p_notice_io = IoOk, p_close_io = IoOk\<rparr>,
      \<lparr>p_ping_time = 35, p_ping_io = IoOk, p_acks = [], p_check_time = 46,
       p_notice_time = 46, p_notice_io = IoOk, p_close_io = IoOk\<rparr>,
      \<lparr>p_ping_time = 46, p_ping_io = IoOk, p_acks = [50, 70], p_check_time = 76,
       p_notice_time = 76, p_notice_io = IoOk, p_close_io = IoOk\<rparr>]"

text \<open>
  Two subscribers on one topic, callbacks that all return, callbacks of which number 7
  raises, and two publishes followed by two passes of the dispatch loop.
\<close>

definition two_subs :: "nat broker" where
  "two_subs = snd (subscribe uq 8 one_sub)"

definition all_return :: "nat \<Rightarrow> message \<Rightarrow> cb_result" where
  "all_return c m = Returns"

definition seven_raises :: "nat \<Rightarrow> message \<Rightarrow> cb_result" where
  "seven_raises c m = (if c = 7 then Raises else Returns)"

definition two_rounds :: "nat op list" where
  "two_rounds =
     [OpPublish uq hi_msg rd1, OpPublish uq hi_msg rd2, OpDispatch uq True, OpDispatch uq True]"

section \<open>Facts about dictionaries\<close>

lemma dict_get_set: "dict_get (dict_set d k v) k' = (if k' = k then Some v else dict_get d k')"
  by (simp add: dict_get_def dict_set_def update_conv')

lemma dict_has_set: "dict_has (dict_set d k v) k' = (k' = k \<or> dict_has d k')"
  by (simp add: dict_has_def dict_set_def update_conv')

lemma dict_has_get: "dict_has d k = (dict_get d k \<noteq> None)"
  by (simp add: dict_has_def dict_get_def)

lemma dict_get_Nil: "dict_get [] k = None"
  by (simp add: dict_get_def)

section \<open>publish: failure as a return value\<close>

lemma ensure_topic_exists_queue_len:
  "queue_len (ensure_topic_exists topic st) t = queue_len st t"
  by (simp add: ensure_topic_exists_def queue_len_def dict_get_set dict_has_get
      new_queue_def qsize_def split: option.splits)

lemma ensure_topic_exists_queue_items:
  "queue_items (ensure_topic_exists topic st) t = queue_items st t"
  by (simp add: ensure_topic_exists_def queue_items_def dict_get_set dict_has_get
      new_queue_def split: option.splits)

lemma ensure_topic_exists_no_readers:
  assumes "\<not> truthy (dict_get (subscribers st) topic)"
    and "\<not> truthy (dict_get (consumers st) topic)"
  shows "\<not> truthy (dict_get (subscribers (ensure_topic_exists topic st)) topic)
       \<and> \<not> truthy (dict_get (consumers (ensure_topic_exists topic st)) topic)"
  using assms by (simp add: ensure_topic_exists_def dict_get_set truthy_def)

lemma ensure_topic_exists_topics_get:
  "dict_get (topics st) topic = Some q \<Longrightarrow> ensure_topic_exists topic st = st"
  by (simp add: ensure_topic_exists_def dict_has_get)

lemma ensure_topic_exists_consumers_quiet:
  assumes "\<not> truthy (dict_get (consumers st) topic)"
  shows "get_list (consumers (ensure_topic_exists topic st)) t = get_list (consumers st) t"
  using assms
  by (auto simp add: ensure_topic_exists_def get_list_def dict_get_set truthy_def
      split: option.splits)

text \<open>Without a subscriber and without a consumer, a publish stops at line 128.\<close>

lemma publish_without_readers:
  assumes "\<not> truthy (dict_get (subscribers st) topic)"
    and "\<not> truthy (dict_get (consumers st) topic)"
  shows "publish topic msg rd st
         = (Returned False, if running st then ensure_topic_exists topic st else st)"
  using ensure_topic_exists_no_readers [OF assms]
  by (simp add: publish_def publish_try_def Let_def)

lemma publish_never_raises: "\<exists>b. fst (publish topic msg rd st) = Returned b"
proof (cases "publish_try topic msg rd st")
  case (Pair r st')
  then show ?thesis by (cases r) (auto simp add: publish_def)
qed

lemma publish_full:
  assumes "running st" and "dict_get (topics st) topic = Some q" and "q_full q"
  shows "publish topic msg rd st = (Returned False, st)"
  using assms
  by (simp add: publish_def publish_try_def Let_def ensure_topic_exists_topics_get
      put_nowait_def)

lemma send_absent:
  "\<not> dict_has (active_connections cm) user_id
     \<Longrightarrow> send_personal_message text user_id send_io cm = (Returned False, cm)"
  by (simp add: send_personal_message_def dict_has_get)

lemma consume_one_resume_empty:
  "queue_items st topic = [] \<Longrightarrow> consume_one_resume topic st = (None, st)"
  by (simp add: consume_one_resume_def queue_items_def split: option.splits list.splits)

text \<open>
  C1. A publish to a topic that has no subscriber and no consumer returns False and
  enqueues nothing: the queue of every topic is as long as before, so the queue of
  that topic still has length 0 if it had, or if the topic did not exist.
\<close>

theorem publish_no_readers_fails:
  assumes "\<not> truthy (dict_get (subscribers st) topic)"
    and "\<not> truthy (dict_get (consumers st) topic)"
  shows "fst (publish topic msg rd st) = Returned False
       \<and> queue_items (snd (publish topic msg rd st)) topic = queue_items st topic
       \<and> (\<forall>t. queue_len (snd (publish topic msg rd st)) t = queue_len st t)"
  by (simp add: publish_without_readers [OF assms] ensure_topic_exists_queue_items
      ensure_topic_exists_queue_len)

theorem publish_no_readers_fails_witness:
  "\<not> truthy (dict_get (subscribers started) ''t1'')
   \<and> \<not> truthy (dict_get (consumers started) ''t1'')
   \<and> fst (publish ''t1'' hi_msg rd1 started) = Returned False
   \<and> queue_len (snd (publish ''t1'' hi_msg rd1 started)) ''t1'' = 0"
proof -
  have h1: "\<not> truthy (dict_get (subscribers started) ''t1'')" by code_simp
  have h2: "\<not> truthy (dict_get (consumers started) ''t1'')" by code_simp
  have q: "queue_len started ''t1'' = 0" by code_simp
  from publish_no_readers_fails [OF h1 h2, of hi_msg rd1] q h1 h2 show ?thesis by simp
qed

text \<open>
  C5. The failures of capacity and availability are return values. \<open>publish\<close> never
  raises; it returns False and changes nothing when the broker is not running; it
  returns False and drops the message when the queue of the topic is full; it returns
  False when the topic has neither subscribers nor consumers. \<open>send_personal_message\<close>
  to a connection id that is not registered returns False, raises nothing and changes
  nothing.
\<close>

theorem failures_are_return_values:
  "(\<exists>b. fst (publish topic msg rd st) = Returned b)
   \<and> (\<not> running st \<longrightarrow> publish topic msg rd st = (Returned False, st))
   \<and> (running st \<and> dict_get (topics st) topic = Some q \<and> q_full q
        \<longrightarrow> publish topic msg rd st = (Returned False, st))
   \<and> (\<not> truthy (dict_get (subscribers st) topic) \<and> \<not> truthy (dict_get (consumers st) topic)
        \<longrightarrow> fst (publish topic msg rd st) = Returned False)
   \<and> (\<not> dict_has (active_connections cm) user_id
        \<longrightarrow> send_personal_message text user_id send_io cm = (Returned False, cm))"
  using publish_never_raises [of topic msg rd st]
  by (auto simp add: publish_full send_absent publish_without_readers)
    (simp add: publish_def)

theorem failures_are_return_values_witness:
  "\<not> running (init_broker 1000 :: nat broker)
   \<and> publish uq hi_msg rd1 (init_broker 1000 :: nat broker) = (Returned False, init_broker 1000)
   \<and> running small_full
   \<and> dict_get (topics small_full) uq = Some \<lparr>q_items = [enrich uq hi_msg rd1], q_maxsize = 1\<rparr>
   \<and> q_full \<lparr>q_items = [enrich uq hi_msg rd1], q_maxsize = 1\<rparr>
   \<and> publish uq hi_msg rd1 small_full = (Returned False, small_full)
   \<and> \<not> truthy (dict_get (subscribers started) ''t1'')
   \<and> \<not> truthy (dict_get (consumers started) ''t1'')
   \<and> fst (publish ''t1'' hi_msg rd1 started) = Returned False
   \<and> \<not> dict_has (active_connections (init_manager 30 10 :: nat conn_manager)) ''u1''
   \<and> send_personal_message ''hello'' ''u1'' IoOk (init_manager 30 10 :: nat conn_manager)
       = (Returned False, init_manager 30 10)"
proof -
  have a: "\<not> running (init_broker 1000 :: nat broker)" by code_simp
  have b1: "running small_full" by code_simp
  have b2: "dict_get (topics small_full) uq
            = Some \<lparr>q_items = [enrich uq hi_msg rd1], q_maxsize = 1\<rparr>" by code_simp
  have b3: "q_full \<lparr>q_items = [enrich uq hi_msg rd1], q_maxsize = 1\<rparr>" by code_simp
  have c1: "\<not> truthy (dict_get (subscribers started) ''t1'')" by code_simp
  have c2: "\<not> truthy (dict_get (consumers started) ''t1'')" by code_simp
  have d: "\<not> dict_has (active_connections (init_manager 30 10 :: nat conn_manager)) ''u1''"
    by (simp add: init_manager_def dict_has_def)
  let ?cm = "init_manager 30 10 :: nat conn_manager"
  let ?q = "\<lparr>q_items = [enrich uq hi_msg rd1], q_maxsize = 1\<rparr>"
  from failures_are_return_values
         [of uq hi_msg rd1 "init_broker 1000 :: nat broker" ?q ?cm "''u1''" "''hello''" IoOk] a
  have r1: "publish uq hi_msg rd1 (init_broker 1000 :: nat broker)
            = (Returned False, init_broker 1000)" by simp
  from failures_are_return_values
         [of uq hi_msg rd1 small_full ?q ?cm "''u1''" "''hello''" IoOk] b1 b2 b3
  have r2: "publish uq hi_msg rd1 small_full = (Returned False, small_full)" by simp
  from failures_are_return_values
         [of "''t1''" hi_msg rd1 started ?q ?cm "''u1''" "''hello''" IoOk] c1 c2
  have r3: "fst (publish ''t1'' hi_msg rd1 started) = Returned False" by simp
  from failures_are_return_values
         [of uq hi_msg rd1 started ?q ?cm "''u1''" "''hello''" IoOk] d
  have r4: "send_personal_message ''hello'' ''u1'' IoOk ?cm = (Returned False, ?cm)" by simp
  from a b1 b2 b3 c1 c2 d r1 r2 r3 r4 show ?thesis by simp
qed

text \<open>
  C10. \<open>consume_one\<close> does not enter itself in the consumers of the topic. So when the
  topic has no subscriber and no \<open>consume\<close> iterator and its queue is empty, a
  \<open>consume_one\<close> starts waiting with the consumers of every topic as they were; a
  publish made while it waits returns False and enqueues nothing; and the wait ends
  at its timeout with \<open>None\<close>.
\<close>

theorem consume_one_is_no_consumer:
  assumes run: "running st"
    and subs: "\<not> truthy (dict_get (subscribers st) topic)"
    and cons: "\<not> truthy (dict_get (consumers st) topic)"
    and empty: "queue_items st topic = []"
  shows "\<exists>st1. consume_one_enter topic st = Some st1
           \<and> (\<forall>t. get_list (consumers st1) t = get_list (consumers st) t)
           \<and> \<not> truthy (dict_get (consumers st1) topic)
           \<and> fst (publish topic msg rd st1) = Returned False
           \<and> queue_items (snd (publish topic msg rd st1)) topic = []
           \<and> fst (consume_one_resume topic (snd (publish topic msg rd st1))) = None"
proof -
  let ?st1 = "ensure_topic_exists topic st"
  have enter: "consume_one_enter topic st = Some ?st1"
    using run by (simp add: consume_one_enter_def)
  from ensure_topic_exists_no_readers [OF subs cons]
  have s1: "\<not> truthy (dict_get (subscribers ?st1) topic)"
    and c1: "\<not> truthy (dict_get (consumers ?st1) topic)" by simp_all
  have q1: "queue_items ?st1 topic = []"
    using empty by (simp add: ensure_topic_exists_queue_items)
  have p: "fst (publish topic msg rd ?st1) = Returned False"
    and q2: "queue_items (snd (publish topic msg rd ?st1)) topic = []"
    using q1 by (simp_all add: publish_without_readers [OF s1 c1] ensure_topic_exists_queue_items)
  from consume_one_resume_empty [OF q2]
  have r: "fst (consume_one_resume topic (snd (publish topic msg rd ?st1))) = None" by simp
  from enter c1 p q2 r ensure_topic_exists_consumers_quiet [OF cons]
  show ?thesis by simp
qed

theorem consume_one_is_no_consumer_witness:
  "running started
   \<and> \<not> truthy (dict_get (subscribers started) ''empty-topic'')
   \<and> \<not> truthy (dict_get (consumers started) ''empty-topic'')
   \<and> queue_items started ''empty-topic'' = []
   \<and> (\<exists>st1. consume_one_enter ''empty-topic'' started = Some st1
         \<and> fst (publish ''empty-topic'' hi_msg rd1 st1) = Returned False
         \<and> fst (consume_one_resume ''empty-topic''
                  (snd (publish ''empty-topic'' hi_msg rd1 st1))) = None)"
proof -
  have h1: "running started" by code_simp
  have h2: "\<not> truthy (dict_get (subscribers started) ''empty-topic'')" by code_simp
  have h3: "\<not> truthy (dict_get (consumers started) ''empty-topic'')" by code_simp
  have h4: "queue_items started ''empty-topic'' = []" by code_simp
  from consume_one_is_no_consumer [OF h1 h2 h3 h4, of hi_msg rd1] h1 h2 h3 h4
  show ?thesis by blast
qed

section \<open>The enriched message\<close>










section \<open>The statistics counters\<close>

lemma stats_le_refl: "stats_le a a"
  by (simp add: stats_le_def)

lemma stats_le_trans: "stats_le a b \<Longrightarrow> stats_le b c \<Longrightarrow> stats_le a c"
  by (auto simp add: stats_le_def)

lemma ete_stats: "stats_le (message_stats st) (message_stats (ensure_topic_exists t st))"
  by (simp add: ensure_topic_exists_def stats_le_def)

lemma etp_stats: "message_stats (ensure_topic_processing t st) = message_stats st"
  by (simp add: ensure_topic_processing_def Let_def)

lemma fold_ete_stats:
  "stats_le (message_stats st) (message_stats (fold ensure_topic_exists ts st))"
proof (induction ts arbitrary: st)
  case Nil
  show ?case by (simp add: stats_le_refl)
next
  case (Cons t ts)
  from stats_le_trans [OF ete_stats Cons.IH] show ?case by simp
qed

lemma start_stats: "stats_le (message_stats st) (message_stats (start st))"
  using fold_ete_stats [of "st\<lparr>running := True\<rparr>" standard_topics]
  by (simp add: start_def stats_le_refl)

lemma stop_stats: "message_stats (stop st) = message_stats st"
  by (simp add: stop_def)

lemma publish_stats: "stats_le (message_stats st) (message_stats (snd (publish t m rd st)))"
proof (cases "running st")
  case False
  then show ?thesis by (simp add: publish_def stats_le_refl)
next
  case True
  have "stats_le (message_stats (ensure_topic_exists t st))
          (message_stats (snd (publish_try t m rd st)))"
    by (simp add: publish_try_def Let_def etp_stats stats_le_def
        split: option.splits sum.splits)
  moreover have "snd (publish t m rd st) = snd (publish_try t m rd st)"
    using True by (simp add: publish_def split: prod.splits outcome.splits)
  ultimately show ?thesis using stats_le_trans [OF ete_stats] by simp
qed

lemma subscribe_stats: "message_stats (snd (subscribe t c st)) = message_stats st"
  by (simp add: subscribe_def Let_def)

lemma unsubscribe_stats: "message_stats (snd (unsubscribe t c st)) = message_stats st"
  by (simp add: unsubscribe_def)

lemma consume_begin_stats:
  "stats_le (message_stats st) (message_stats (snd (consume_begin t me st)))"
  using ete_stats [of st t] by (simp add: consume_begin_def Let_def stats_le_refl)

lemma consume_pass_stats:
  "stats_le (message_stats st) (message_stats (snd (consume_pass t b st)))"
  by (simp add: consume_pass_def stats_le_def split: option.splits list.splits)

lemma consume_finally_stats: "message_stats (consume_finally t me st) = message_stats st"
  by (simp add: consume_finally_def)

lemma consume_one_resume_stats:
  "stats_le (message_stats st) (message_stats (snd (consume_one_resume t st)))"
  by (simp add: consume_one_resume_def stats_le_def split: option.splits list.splits)

lemma consume_one_stats:
  "stats_le (message_stats st) (message_stats (snd (consume_one t st)))"
  using stats_le_trans [OF ete_stats consume_one_resume_stats, of st t t]
  by (simp add: consume_one_def consume_one_enter_def stats_le_refl)

lemma process_message_stats:
  "stats_le (message_stats st) (message_stats (process_message order behave m subs st))"
  using length_filter_le [of "(\<lambda>r. \<not> is_exception r) \<circ> (\<lambda>s. call_subscriber behave s m)" subs]
  by (auto simp add: process_message_def Let_def stats_le_def simp del: length_filter_le)

lemma dispatch_pass_stats:
  "stats_le (message_stats st) (message_stats (snd (dispatch_pass order behave t b st)))"
proof -
  have "stats_le (message_stats st)
      (message_stats (process_message order behave m subs (st\<lparr>topics := x\<rparr>)))" for m subs x
    using process_message_stats [of "st\<lparr>topics := x\<rparr>" order behave m subs] by simp
  then show ?thesis
    by (simp add: dispatch_pass_def stats_le_refl split: option.splits list.splits)
qed

lemma dispatch_error_stats: "stats_le (message_stats st) (message_stats (dispatch_error st))"
  by (simp add: dispatch_error_def stats_le_def)

lemma run_scheduled_stats: "stats_le (message_stats st) (message_stats (run_scheduled st))"
  using ete_stats [of "st\<lparr>loop_scheduled := cs\<rparr>" for cs]
  by (simp add: run_scheduled_def etp_stats stats_le_refl split: list.splits scheduled.splits)

lemma exec_op_stats:
  "stats_le (message_stats st) (message_stats (exec_op order behave x st))"
  by (cases x)
    (simp_all add: start_stats stop_stats publish_stats subscribe_stats unsubscribe_stats
      consume_begin_stats consume_pass_stats consume_finally_stats consume_one_stats
      dispatch_pass_stats dispatch_error_stats run_scheduled_stats stats_le_refl)

text \<open>
  C9. Over every run of broker operations (start, stop, publish, subscribe,
  unsubscribe, the parts of consume, consume\_one, the passes of the dispatch loop and
  its error handler, the scheduled coroutines) none of the five counters decreases;
  stop clears the topic maps and leaves the counters. The queries only read the
  counters, and \<open>health_check\<close> is a sequence of these operations.
\<close>

theorem counters_never_decrease:
  "stats_le (message_stats st) (message_stats (exec_ops order behave xs st))"
proof (induction xs arbitrary: st)
  case Nil
  show ?case by (simp add: stats_le_refl)
next
  case (Cons x xs)
  from stats_le_trans [OF exec_op_stats Cons.IH] show ?case by simp
qed

section \<open>stop and connection removal, called again\<close>

lemma dict_has_delete: "dict_has (AList.delete k d) k' = (k' \<noteq> k \<and> dict_has d k')"
  by (simp add: dict_has_def delete_conv')

lemma dict_get_delete: "dict_get (AList.delete k d) k' = (if k' = k then None else dict_get d k')"
  by (simp add: dict_get_def delete_conv')

lemma stop_twice: "stop (stop st) = stop st"
  by (simp add: stop_def)

lemma stop_not_running: "\<not> running st \<Longrightarrow> stop st = st"
  by (simp add: stop_def)

lemma cleanup_returns:
  "\<exists>cm'. cleanup_user_connection user_id cm = Inr cm'
         \<and> \<not> dict_has (active_connections cm') user_id
         \<and> \<not> dict_has (user_heartbeats cm') user_id
         \<and> dict_get (heartbeat_tasks cm') user_id = None"
  by (auto simp add: cleanup_user_connection_def dict_del_def dict_has_delete dict_get_delete
      dict_has_get split: option.splits)

lemma cleanup_absent:
  assumes "\<not> dict_has (active_connections cm) user_id"
    and "\<not> dict_has (user_heartbeats cm) user_id"
    and "dict_get (heartbeat_tasks cm) user_id = None"
  shows "cleanup_user_connection user_id cm = Inr cm"
  using assms by (simp add: cleanup_user_connection_def)

text \<open>
  C7. A second \<open>stop\<close> changes nothing, and neither does a \<open>stop\<close> of a broker that is
  not running or was never started. \<open>_cleanup_user_connection\<close> raises nothing, and
  called again for the same connection id it raises nothing and leaves the
  connections, the heartbeat timestamps and the heartbeat tasks as the first call
  left them. \<open>stop\<close> has no failing statement: it is a total function of the state.
\<close>

theorem second_call_is_no_op:
  "stop (stop st) = stop (st :: 'cb broker)
   \<and> (\<not> running st \<longrightarrow> stop st = st)
   \<and> stop (init_broker n) = (init_broker n :: 'cb broker)
   \<and> (\<exists>cm'. cleanup_user_connection user_id cm = Inr cm'
             \<and> cleanup_user_connection user_id cm' = Inr cm')"
proof -
  from cleanup_returns [of user_id cm] obtain cm'
    where "cleanup_user_connection user_id cm = Inr cm'"
      and "\<not> dict_has (active_connections cm') user_id"
      and "\<not> dict_has (user_heartbeats cm') user_id"
      and "dict_get (heartbeat_tasks cm') user_id = None" by blast
  then have "cleanup_user_connection user_id cm = Inr cm'
             \<and> cleanup_user_connection user_id cm' = Inr cm'"
    by (simp add: cleanup_absent)
  then show ?thesis
    by (auto simp add: stop_twice stop_not_running init_broker_def)
qed

theorem second_call_is_no_op_witness:
  "\<not> running (init_broker 1000 :: nat broker)
   \<and> stop (init_broker 1000 :: nat broker) = init_broker 1000
   \<and> stop (stop started) = stop started
   \<and> (case cleanup_user_connection ''u1'' two_conns of
         Inl e \<Rightarrow> False
       | Inr cm' \<Rightarrow> cleanup_user_connection ''u1'' cm' = Inr cm'
                    \<and> \<not> dict_has (active_connections cm') ''u1''
                    \<and> dict_has (active_connections cm') ''u2'')"
proof -
  have h: "\<not> running (init_broker 1000 :: nat broker)" by code_simp
  have k: "case cleanup_user_connection ''u1'' two_conns of
             Inl e \<Rightarrow> False
           | Inr cm' \<Rightarrow> \<not> dict_has (active_connections cm') ''u1''
                        \<and> dict_has (active_connections cm') ''u2''" by code_simp
  from second_call_is_no_op [of "init_broker 1000 :: nat broker" 1000 "''u1''" two_conns] h
  have a: "stop (init_broker 1000 :: nat broker) = init_broker 1000" by simp
  from second_call_is_no_op [of started 1000 "''u1''" two_conns]
  have b: "stop (stop started) = stop started"
    and c: "\<exists>cm'. cleanup_user_connection ''u1'' two_conns = Inr cm'
                  \<and> cleanup_user_connection ''u1'' cm' = Inr cm'" by simp_all
  from c k have "case cleanup_user_connection ''u1'' two_conns of
         Inl e \<Rightarrow> False
       | Inr cm' \<Rightarrow> cleanup_user_connection ''u1'' cm' = Inr cm'
                    \<and> \<not> dict_has (active_connections cm') ''u1''
                    \<and> dict_has (active_connections cm') ''u2''"
    by (auto split: sum.splits)
  with h a b show ?thesis by simp
qed

section \<open>subscribe and unsubscribe\<close>

lemma subscribe_again:
  assumes "callback \<in> set (get_list (subscribers st) topic)"
  shows "fst (subscribe topic callback st) = False
       \<and> subscribers (snd (subscribe topic callback st)) = subscribers st"
proof -
  from assms have "dict_has (subscribers st) topic"
    by (cases "dict_get (subscribers st) topic") (simp_all add: get_list_def dict_has_get)
  with assms show ?thesis by (simp add: subscribe_def Let_def)
qed

lemma subscribe_registers:
  "running st \<Longrightarrow> callback \<in> set (get_list (subscribers (snd (subscribe topic callback st))) topic)"
  by (auto simp add: subscribe_def Let_def get_list_def dict_get_set)

lemma subscribe_not_running: "\<not> running st \<Longrightarrow> subscribe topic callback st = (False, st)"
  by (simp add: subscribe_def)

lemma subscribe_twice:
  "fst (subscribe topic callback (snd (subscribe topic callback st))) = False
   \<and> subscribers (snd (subscribe topic callback (snd (subscribe topic callback st))))
     = subscribers (snd (subscribe topic callback st))"
proof (cases "running st")
  case True
  from subscribe_again [OF subscribe_registers [OF True]] show ?thesis .
next
  case False
  then show ?thesis by (simp add: subscribe_not_running)
qed

lemma subscribe_distinct:
  assumes "distinct (get_list (subscribers st) topic)"
  shows "distinct (get_list (subscribers (snd (subscribe topic callback st))) topic)"
  using assms by (auto simp add: subscribe_def Let_def get_list_def dict_get_set dict_has_get
      split: option.splits)

lemma unsubscribe_unregistered:
  assumes "callback \<notin> set (get_list (subscribers st) topic)"
  shows "unsubscribe topic callback st = (False, st)"
  using assms by (simp add: unsubscribe_def)

text \<open>
  What holds of the two calls: subscribing a callback and subscribing it again at once,
  the second call returns False and leaves the subscriber lists as the first call left
  them; a subscribe of a callback that is in the list of the topic returns False and
  leaves the lists unchanged; a subscribe keeps a list without duplicates without
  duplicates; an unsubscribe of a callback that is not in the list of the topic returns
  False and changes nothing.
\<close>

lemma subscribe_unsubscribe_registered:
  "fst (subscribe topic callback (snd (subscribe topic callback st))) = False
   \<and> subscribers (snd (subscribe topic callback (snd (subscribe topic callback st))))
       = subscribers (snd (subscribe topic callback st))
   \<and> (callback \<in> set (get_list (subscribers st) topic)
        \<longrightarrow> fst (subscribe topic callback st) = False
            \<and> subscribers (snd (subscribe topic callback st)) = subscribers st)
   \<and> (distinct (get_list (subscribers st) topic)
        \<longrightarrow> distinct (get_list (subscribers (snd (subscribe topic callback st))) topic))
   \<and> (callback \<notin> set (get_list (subscribers st) topic)
        \<longrightarrow> unsubscribe topic callback st = (False, st))"
  using subscribe_twice [of topic callback st]
  by (simp add: subscribe_again subscribe_distinct unsubscribe_unregistered)

text \<open>
  C8, where the code departs from it. The topic \<open>t1\<close> does not exist yet. The first
  subscribe of callback 7 returns True, puts 7 in the list of \<open>t1\<close> and schedules
  \<open>_ensure_topic_exists\<close>. When that coroutine runs it creates the topic, and line 99
  stores an empty subscriber list for it: the callback is no longer registered. The
  second subscribe of the same callback to the same topic then returns True and
  changes the list from empty to 7. A publish that comes before the scheduled
  coroutine does the same at line 112: it empties the list, returns False for want of
  subscribers, and the second subscribe returns True.
\<close>

theorem second_subscribe_of_new_topic_succeeds:
  "\<not> dict_has (topics started) ''t1''
   \<and> fst (subscribe ''t1'' (7::nat) started) = True
   \<and> get_list (subscribers (snd (subscribe ''t1'' 7 started))) ''t1'' = [7]
   \<and> get_list (subscribers (run_scheduled (snd (subscribe ''t1'' 7 started)))) ''t1'' = []
   \<and> fst (subscribe ''t1'' 7 (run_scheduled (snd (subscribe ''t1'' 7 started)))) = True
   \<and> get_list (subscribers
        (snd (subscribe ''t1'' 7 (run_scheduled (snd (subscribe ''t1'' 7 started)))))) ''t1'' = [7]
   \<and> fst (publish ''t1'' hi_msg rd1 (snd (subscribe ''t1'' 7 started))) = Returned False
   \<and> get_list (subscribers
        (snd (publish ''t1'' hi_msg rd1 (snd (subscribe ''t1'' 7 started))))) ''t1'' = []
   \<and> fst (subscribe ''t1'' 7
        (snd (publish ''t1'' hi_msg rd1 (snd (subscribe ''t1'' 7 started))))) = True"
  by code_simp

section \<open>The dispatch loop\<close>

text \<open>
  \<open>_ensure_topic_processing\<close> starts a dispatch task only when the topic has none that is
  active, so a topic never has two dispatch loops taking from its queue.
\<close>

lemma at_most_one_dispatch_task:
  assumes "length (active_handlers st topic) \<le> 1"
    and "loop_next st \<notin> set (loop_done st)"
  shows "length (active_handlers (ensure_topic_processing topic st) topic) \<le> 1"
  using assms
  by (auto simp add: active_handlers_def ensure_topic_processing_def Let_def get_list_def
      dict_get_set dict_has_get split: option.splits)

lemma view_append: "view s (xs @ ys) = view s xs @ view s ys"
  by (simp add: view_def)

lemma view_batch: "view s (map (\<lambda>c. (c, m)) ys) = replicate (count_list ys s) m"
  by (induction ys) (simp_all add: view_def)

lemma count_list_distinct: "distinct xs \<Longrightarrow> x \<in> set xs \<Longrightarrow> count_list xs x = 1"
  by (induction xs) auto

lemma ensure_topic_processing_frame:
  "topics (ensure_topic_processing t st) = topics st
   \<and> subscribers (ensure_topic_processing t st) = subscribers st
   \<and> running (ensure_topic_processing t st) = running st
   \<and> delivered (ensure_topic_processing t st) = delivered st"
  by (simp add: ensure_topic_processing_def Let_def)

lemma ensure_topic_exists_present:
  "dict_has (topics st) topic \<Longrightarrow> ensure_topic_exists topic st = st"
  by (simp add: ensure_topic_exists_def)

lemma publish_ready:
  assumes "ready topic subs st" and "subs \<noteq> []"
  shows "ready topic subs (snd (publish topic m rd st))
       \<and> delivered (snd (publish topic m rd st)) = delivered st
       \<and> queue_items (snd (publish topic m rd st)) topic
           = queue_items st topic
             @ (if fst (publish topic m rd st) = Returned True then [enrich topic m rd] else [])"
proof -
  from assms have run: "running st" and has: "dict_has (topics st) topic"
    and subs: "dict_get (subscribers st) topic = Some subs" by (simp_all add: ready_def)
  from has obtain q where q: "dict_get (topics st) topic = Some q"
    by (auto simp add: dict_has_get)
  show ?thesis
  proof (cases "q_full q")
    case True
    from publish_full [OF run q True] assms show ?thesis by simp
  next
    case False
    with run has subs q assms(2) show ?thesis
      by (simp add: publish_def publish_try_def Let_def ensure_topic_exists_present
          truthy_def put_nowait_def ready_def ensure_topic_processing_frame
          queue_items_def dict_get_set dict_has_set)
  qed
qed

lemma dispatch_ready:
  assumes "ready topic subs st" and "subs \<noteq> []" and "distinct subs" and "s \<in> set subs"
    and "\<forall>xs c. count_list (order xs) c = count_list xs c"
  shows "ready topic subs (snd (dispatch_pass order behave topic tested st))
       \<and> view s (delivered (snd (dispatch_pass order behave topic tested st)))
           @ queue_items (snd (dispatch_pass order behave topic tested st)) topic
         = view s (delivered st) @ queue_items st topic"
proof -
  from assms have run: "running st" and has: "dict_has (topics st) topic"
    and subs: "dict_get (subscribers st) topic = Some subs" by (simp_all add: ready_def)
  from has obtain q where q: "dict_get (topics st) topic = Some q"
    by (auto simp add: dict_has_get)
  from assms have one: "count_list (order subs) s = 1"
    by (simp add: count_list_distinct)
  show ?thesis
  proof (cases "q_items q")
    case Nil
    with run subs q assms show ?thesis
      by (simp add: dispatch_pass_def truthy_def)
  next
    case (Cons m ms)
    with run has subs q assms(2) one show ?thesis
      by (simp add: dispatch_pass_def Let_def get_list_def process_message_def ready_def
          queue_items_def dict_get_set dict_has_set view_append view_batch)
  qed
qed

lemma count_list_rev: "count_list (rev xs) c = count_list xs c"
  by (induction xs) simp_all

text \<open>
  C2. One topic that exists, with a running broker and a fixed list of at least one
  subscriber, none twice. Over every run of publishes to the topic and passes of its
  dispatch loop, in any interleaving, and whatever the order in which the event loop
  runs the concurrent calls of one message: what a subscriber has been called with,
  followed by what is still queued, is what it had been called with and what was
  queued at the start followed by the messages of the successful publishes, in the
  order of the publishes. So each subscriber receives the messages in publish order.
\<close>

theorem fifo_per_subscriber:
  assumes "ready topic subs st" and "subs \<noteq> []" and "distinct subs" and "s \<in> set subs"
    and "\<forall>xs c. count_list (order xs) c = count_list xs c"
    and "\<forall>x \<in> set ops. topic_op topic x"
  shows "view s (delivered (exec_ops order behave ops st))
           @ queue_items (exec_ops order behave ops st) topic
         = view s (delivered st) @ queue_items st topic @ accepted order behave topic ops st"
  using assms(1,6)
proof (induction ops arbitrary: st)
  case Nil
  then show ?case by simp
next
  case (Cons x xs)
  from Cons.prems(2) have tx: "topic_op topic x" and txs: "\<forall>x \<in> set xs. topic_op topic x"
    by simp_all
  show ?case
  proof (cases x)
    case (OpPublish t m rd)
    with tx have t: "t = topic" by simp
    from publish_ready [OF Cons.prems(1) assms(2), of m rd]
    have r: "ready topic subs (snd (publish topic m rd st))"
      and d: "delivered (snd (publish topic m rd st)) = delivered st"
      and q: "queue_items (snd (publish topic m rd st)) topic
           = queue_items st topic
             @ (if fst (publish topic m rd st) = Returned True then [enrich topic m rd] else [])"
      by simp_all
    from Cons.IH [OF r txs] d q OpPublish t show ?thesis by simp
  next
    case (OpDispatch t b)
    with tx have t: "t = topic" by simp
    from dispatch_ready [OF Cons.prems(1) assms(2,3,4,5), of behave b]
    have r: "ready topic subs (snd (dispatch_pass order behave topic b st))"
      and v: "view s (delivered (snd (dispatch_pass order behave topic b st)))
           @ queue_items (snd (dispatch_pass order behave topic b st)) topic
         = view s (delivered st) @ queue_items st topic" by simp_all
    from Cons.IH [OF r txs] v OpDispatch t show ?thesis
      by (simp add: append_assoc [symmetric] del: append_assoc)
  qed (use tx in simp_all)
qed

theorem fifo_per_subscriber_witness:
  "ready uq [7, 8] two_subs
   \<and> list_all (topic_op uq) two_rounds
   \<and> accepted rev all_return uq two_rounds two_subs = [enrich uq hi_msg rd1, enrich uq hi_msg rd2]
   \<and> delivered (exec_ops rev all_return two_rounds two_subs)
       = [(8, enrich uq hi_msg rd1), (7, enrich uq hi_msg rd1),
          (8, enrich uq hi_msg rd2), (7, enrich uq hi_msg rd2)]
   \<and> view 7 (delivered (exec_ops rev all_return two_rounds two_subs))
       = [enrich uq hi_msg rd1, enrich uq hi_msg rd2]"
proof -
  have h1: "ready uq [7, 8] two_subs" by code_simp
  have h2: "[7, 8 :: nat] \<noteq> []" by simp
  have h3: "distinct [7, 8 :: nat]" by simp
  have h4: "(7 :: nat) \<in> set [7, 8]" by simp
  have h5: "\<forall>xs c :: nat. count_list (rev xs) c = count_list xs c"
    by (simp add: count_list_rev)
  have h6: "\<forall>x \<in> set two_rounds. topic_op uq x" by (simp add: two_rounds_def)
  have a: "accepted rev all_return uq two_rounds two_subs
           = [enrich uq hi_msg rd1, enrich uq hi_msg rd2]" by code_simp
  have q: "queue_items (exec_ops rev all_return two_rounds two_subs) uq = []" by code_simp
  have q0: "queue_items two_subs uq = []" by code_simp
  have d0: "delivered two_subs = []" by code_simp
  have d: "delivered (exec_ops rev all_return two_rounds two_subs)
       = [(8, enrich uq hi_msg rd1), (7, enrich uq hi_msg rd1),
          (8, enrich uq hi_msg rd2), (7, enrich uq hi_msg rd2)]" by code_simp
  from fifo_per_subscriber [OF h1 h2 h3 h4 h5 h6, of all_return] a q q0 d0
  have "view 7 (delivered (exec_ops rev all_return two_rounds two_subs))
       = [enrich uq hi_msg rd1, enrich uq hi_msg rd2]" by (simp add: view_def)
  with h1 h6 a d show ?thesis by (simp add: list_all_iff)
qed

lemma process_message_never_counts_failure:
  "total_failed (message_stats (process_message order behave m subs st))
     = total_failed (message_stats st)
   \<and> total_processed (message_stats (process_message order behave m subs st))
     = total_processed (message_stats st) + length subs"
proof -
  have "filter (\<lambda>r. \<not> is_exception r) (map (\<lambda>s. call_subscriber behave s m) subs)
        = map (\<lambda>s. call_subscriber behave s m) subs"
    by (induction subs) (simp_all add: call_subscriber_def split: cb_result.splits)
  then have "length (filter (\<lambda>r. \<not> is_exception r) (map (\<lambda>s. call_subscriber behave s m) subs))
        = length subs" by simp
  then show ?thesis by (simp add: process_message_def Let_def del: filter_map)
qed

text \<open>
  C3, where the code departs from it. Two subscribers, of which number 7 raises on the
  message. The handler of \<open>_call_subscriber\<close> catches the exception, both subscribers
  are called and the pass continues; but the failure counter stays at 0 and the
  processed counter goes to 2: \<open>_call_subscriber\<close> returns False for the failure,
  and \<open>_process_message\<close> counts as failed only the results that are exception objects.
\<close>

theorem raising_subscriber_counted_as_processed:
  "fst (publish uq hi_msg rd1 two_subs) = Returned True
   \<and> seven_raises 7 (enrich uq hi_msg rd1) = Raises
   \<and> total_failed (message_stats (snd (publish uq hi_msg rd1 two_subs))) = 0
   \<and> total_processed (message_stats (snd (publish uq hi_msg rd1 two_subs))) = 0
   \<and> total_failed (message_stats
        (snd (dispatch_pass id seven_raises uq True (snd (publish uq hi_msg rd1 two_subs))))) = 0
   \<and> total_processed (message_stats
        (snd (dispatch_pass id seven_raises uq True (snd (publish uq hi_msg rd1 two_subs))))) = 2
   \<and> delivered (snd (dispatch_pass id seven_raises uq True (snd (publish uq hi_msg rd1 two_subs))))
       = [(7, enrich uq hi_msg rd1), (8, enrich uq hi_msg rd1)]"
  by code_simp

section \<open>The heartbeat supervisor\<close>

lemma cleanup_wire:
  "cleanup_user_connection user_id st = Inr st' \<Longrightarrow> wire st' = wire st"
  by (auto simp add: cleanup_user_connection_def dict_del_def
      split: if_splits option.splits sum.splits)

text \<open>
  A forced disconnect of a registered connection whose close returns: the notice is
  sent if its write succeeds, the transport is closed with code 1011 and the reason,
  and the connection, its timestamp and its heartbeat task are removed.
\<close>

lemma force_disconnect_closed:
  assumes conn: "dict_get (active_connections st) user_id = Some websocket"
  shows "\<exists>st'. force_disconnect_user user_id reason notice_time notice_io IoOk st = st'
           \<and> \<not> dict_has (active_connections st') user_id
           \<and> \<not> dict_has (user_heartbeats st') user_id
           \<and> dict_get (heartbeat_tasks st') user_id = None
           \<and> wire st' = wire st
                @ (if notice_io = IoOk
                   then [(websocket, DisconnectNotice reason notice_time)] else [])
                @ [(websocket, Close 1011 reason)]"
proof -
  let ?st1 = "if notice_io = IoOk
              then st\<lparr>wire := wire st @ [(websocket, DisconnectNotice reason notice_time)]\<rparr>
              else st"
  let ?st2 = "?st1\<lparr>wire := wire ?st1 @ [(websocket, Close 1011 reason)]\<rparr>"
  from cleanup_returns [of user_id ?st2] obtain st'
    where c: "cleanup_user_connection user_id ?st2 = Inr st'"
      and p: "\<not> dict_has (active_connections st') user_id"
        "\<not> dict_has (user_heartbeats st') user_id"
        "dict_get (heartbeat_tasks st') user_id = None" by blast
  from cleanup_wire [OF c] have w: "wire st' = wire ?st2" .
  from conn c have "force_disconnect_user user_id reason notice_time notice_io IoOk st = st'"
    by (simp add: force_disconnect_user_def Let_def)
  with p w show ?thesis by simp
qed

text \<open>When the close returns, an expired connection is notified, closed and removed.\<close>

lemma expired_connection_removed:
  assumes late: "fl_sub fl now (last_heartbeat st user_id)
                   > fl_add fl (heartbeat_interval st) (ping_timeout st)"
    and conn: "dict_get (active_connections st) user_id = Some websocket"
  shows "\<exists>st'. heartbeat_check fl user_id now notice_time notice_io IoOk st = (Break, st')
           \<and> \<not> dict_has (active_connections st') user_id
           \<and> \<not> dict_has (user_heartbeats st') user_id
           \<and> dict_get (heartbeat_tasks st') user_id = None
           \<and> wire st' = wire st
                @ (if notice_io = IoOk
                   then [(websocket, DisconnectNotice ''heartbeat_timeout'' notice_time)] else [])
                @ [(websocket, Close 1011 ''heartbeat_timeout'')]"
  using force_disconnect_closed [OF conn, of "''heartbeat_timeout''" notice_time notice_io] late
  by (simp add: heartbeat_check_def Let_def)

text \<open>A connection for which the comparison of line 175 is false is left alone.\<close>

lemma fresh_connection_kept:
  assumes "\<not> fl_sub fl now (last_heartbeat st user_id)
               > fl_add fl (heartbeat_interval st) (ping_timeout st)"
  shows "heartbeat_check fl user_id now notice_time notice_io close_io st = (Continue, st)"
  using assms by (simp add: heartbeat_check_def Let_def)

text \<open>A ping that is written leaves the registry alone; the loop goes on to its sleep.\<close>

lemma ping_written:
  assumes "dict_get (active_connections st) user_id = Some websocket"
    and "heartbeat_running st"
  shows "heartbeat_ping user_id now notice_time IoOk notice_io close_io st
         = (Continue, st\<lparr>wire := wire st @ [(websocket, Ping now user_id)]\<rparr>)"
  using assms by (simp add: heartbeat_ping_def dict_has_get)

text \<open>
  Over a run that is acknowledged in time the connection and its heartbeat task stay
  registered: the supervisor does not evict it, however many passes the run has.
\<close>

lemma update_frame:
  assumes "dict_has (active_connections st) user_id"
  shows "active_connections (update_user_heartbeat user_id a st) = active_connections st
       \<and> heartbeat_tasks (update_user_heartbeat user_id a st) = heartbeat_tasks st
       \<and> heartbeat_running (update_user_heartbeat user_id a st) = heartbeat_running st
       \<and> heartbeat_interval (update_user_heartbeat user_id a st) = heartbeat_interval st
       \<and> ping_timeout (update_user_heartbeat user_id a st) = ping_timeout st
       \<and> last_heartbeat (update_user_heartbeat user_id a st) user_id = a"
  using assms by (simp add: update_user_heartbeat_def last_heartbeat_def dict_get_set)

lemma fold_update_frame:
  assumes "dict_has (active_connections st) user_id"
  shows "active_connections (fold (update_user_heartbeat user_id) acks st) = active_connections st
       \<and> heartbeat_tasks (fold (update_user_heartbeat user_id) acks st) = heartbeat_tasks st
       \<and> heartbeat_running (fold (update_user_heartbeat user_id) acks st) = heartbeat_running st
       \<and> heartbeat_interval (fold (update_user_heartbeat user_id) acks st) = heartbeat_interval st
       \<and> ping_timeout (fold (update_user_heartbeat user_id) acks st) = ping_timeout st
       \<and> last_heartbeat (fold (update_user_heartbeat user_id) acks st) user_id
           = (if acks = [] then last_heartbeat st user_id else last acks)"
  using assms
proof (induction acks arbitrary: st)
  case Nil
  then show ?case by simp
next
  case (Cons a acks)
  from update_frame [OF Cons.prems, of a]
  have f: "active_connections (update_user_heartbeat user_id a st) = active_connections st"
    and rest: "heartbeat_tasks (update_user_heartbeat user_id a st) = heartbeat_tasks st"
      "heartbeat_running (update_user_heartbeat user_id a st) = heartbeat_running st"
      "heartbeat_interval (update_user_heartbeat user_id a st) = heartbeat_interval st"
      "ping_timeout (update_user_heartbeat user_id a st) = ping_timeout st"
      "last_heartbeat (update_user_heartbeat user_id a st) user_id = a" by simp_all
  from Cons.prems f have "dict_has (active_connections (update_user_heartbeat user_id a st)) user_id"
    by simp
  from Cons.IH [OF this] f rest show ?case by simp
qed

lemma acked_connection_stays:
  assumes "hb_registered st user_id websocket"
    and "acked_in_time fl (heartbeat_interval st) (ping_timeout st) (last_heartbeat st user_id) ps"
  shows "active_connections (heartbeat_loop fl user_id ps st) = active_connections st
       \<and> heartbeat_tasks (heartbeat_loop fl user_id ps st) = heartbeat_tasks st"
  using assms
proof (induction ps arbitrary: st)
  case Nil
  then show ?case by simp
next
  case (Cons p ps)
  let ?st1 = "st\<lparr>wire := wire st @ [(websocket, Ping (p_ping_time p) user_id)]\<rparr>"
  let ?st2 = "fold (update_user_heartbeat user_id) (p_acks p) ?st1"
  let ?l = "if p_acks p = [] then last_heartbeat st user_id else last (p_acks p)"
  from Cons.prems have conn: "dict_get (active_connections st) user_id = Some websocket"
    and run: "heartbeat_running st" by (simp_all add: hb_registered_def)
  from Cons.prems(2) have ok: "p_ping_io p = IoOk"
    and fresh: "\<not> fl_sub fl (p_check_time p) ?l > fl_add fl (heartbeat_interval st) (ping_timeout st)"
    and later: "acked_in_time fl (heartbeat_interval st) (ping_timeout st) ?l ps"
    by (simp_all add: Let_def)
  from conn have has1: "dict_has (active_connections ?st1) user_id" by (simp add: dict_has_get)
  from fold_update_frame [OF has1, of "p_acks p"]
  have f: "active_connections ?st2 = active_connections st"
    "heartbeat_tasks ?st2 = heartbeat_tasks st"
    "heartbeat_running ?st2 = heartbeat_running st"
    "heartbeat_interval ?st2 = heartbeat_interval st"
    "ping_timeout ?st2 = ping_timeout st"
    and l: "last_heartbeat ?st2 user_id = ?l"
    by (simp_all add: last_heartbeat_def)
  from ping_written [OF conn run]
  have ping: "heartbeat_ping user_id (p_ping_time p) (p_notice_time p) IoOk
                (p_notice_io p) (p_close_io p) st = (Continue, ?st1)" .
  from fresh f l
  have "\<not> fl_sub fl (p_check_time p) (last_heartbeat ?st2 user_id)
           > fl_add fl (heartbeat_interval ?st2) (ping_timeout ?st2)" by simp
  from fresh_connection_kept [OF this]
  have check: "heartbeat_check fl user_id (p_check_time p) (p_notice_time p)
                 (p_notice_io p) (p_close_io p) ?st2 = (Continue, ?st2)" .
  from conn run f have reg: "hb_registered ?st2 user_id websocket"
    by (simp add: hb_registered_def)
  from later f l
  have "acked_in_time fl (heartbeat_interval ?st2) (ping_timeout ?st2)
          (last_heartbeat ?st2 user_id) ps" by simp
  from Cons.IH [OF reg this] f
  have "active_connections (heartbeat_loop fl user_id ps ?st2) = active_connections st
      \<and> heartbeat_tasks (heartbeat_loop fl user_id ps ?st2) = heartbeat_tasks st" by simp
  moreover from ok ping check
  have "heartbeat_loop fl user_id (p # ps) st = heartbeat_loop fl user_id ps ?st2" by simp
  ultimately show ?case by simp
qed

text \<open>A ping whose write raises \<open>WebSocketDisconnect\<close> ends the loop and removes nothing.\<close>

lemma ping_disconnected:
  "heartbeat_ping user_id now notice_time IoDisconnect notice_io close_io st = (Break, st)"
  by (simp add: heartbeat_ping_def split: option.splits)

text \<open>
  A ping whose write raises another error ends in a forced disconnect with the reason
  \<open>heartbeat_error\<close>, whatever the timestamp.
\<close>

lemma ping_error_evicts:
  assumes conn: "dict_get (active_connections st) user_id = Some websocket"
    and run: "heartbeat_running st"
  shows "\<exists>st'. heartbeat_ping user_id now notice_time IoError notice_io IoOk st = (Break, st')
           \<and> \<not> dict_has (active_connections st') user_id
           \<and> \<not> dict_has (user_heartbeats st') user_id
           \<and> dict_get (heartbeat_tasks st') user_id = None
           \<and> wire st' = wire st
                @ (if notice_io = IoOk
                   then [(websocket, DisconnectNotice ''heartbeat_error'' notice_time)] else [])
                @ [(websocket, Close 1011 ''heartbeat_error'')]"
  using force_disconnect_closed [OF conn, of "''heartbeat_error''" notice_time notice_io] conn run
  by (simp add: heartbeat_ping_def dict_has_get)

text \<open>
  C4, as the code has it. At the check after the sleep, a registered connection for
  which the elapsed time since its last heartbeat update, computed in floating point as
  line 175 does, exceeds interval + grace is sent the disconnect notice with the reason
  \<open>heartbeat_timeout\<close> (a failure of that write is ignored), its transport is closed
  with code 1011, and, the close having returned, the connection, its timestamp and its
  heartbeat task are removed. A connection for which the comparison is false is left
  as it is by the check, and a ping that is written changes nothing in the registry:
  over a run of any number of passes whose pings are written and whose updates come
  in time, the connection and its heartbeat task stay registered. A ping whose write
  raises \<open>WebSocketDisconnect\<close>
  ends the loop and removes nothing. A connection whose ping write raises another
  error is, whatever its timestamp, sent the notice with the reason
  \<open>heartbeat_error\<close> and closed with code 1011, and, the close having returned, it is
  removed in the same way.
\<close>

theorem heartbeat_supervision:
  "(fl_sub fl now (last_heartbeat st user_id) > fl_add fl (heartbeat_interval st) (ping_timeout st)
      \<and> dict_get (active_connections st) user_id = Some websocket
     \<longrightarrow> (\<exists>st'. heartbeat_check fl user_id now notice_time notice_io IoOk st = (Break, st')
           \<and> \<not> dict_has (active_connections st') user_id
           \<and> \<not> dict_has (user_heartbeats st') user_id
           \<and> dict_get (heartbeat_tasks st') user_id = None
           \<and> wire st' = wire st
                @ (if notice_io = IoOk
                   then [(websocket, DisconnectNotice ''heartbeat_timeout'' notice_time)] else [])
                @ [(websocket, Close 1011 ''heartbeat_timeout'')]))
   \<and> (\<not> fl_sub fl now (last_heartbeat st user_id)
           > fl_add fl (heartbeat_interval st) (ping_timeout st)
     \<longrightarrow> heartbeat_check fl user_id now notice_time notice_io close_io st = (Continue, st))
   \<and> heartbeat_ping user_id now notice_time IoDisconnect notice_io close_io st = (Break, st)
   \<and> (dict_get (active_connections st) user_id = Some websocket \<and> heartbeat_running st
     \<longrightarrow> heartbeat_ping user_id now notice_time IoOk notice_io close_io st
           = (Continue, st\<lparr>wire := wire st @ [(websocket, Ping now user_id)]\<rparr>)
         \<and> (\<exists>st'. heartbeat_ping user_id now notice_time IoError notice_io IoOk st = (Break, st')
                \<and> \<not> dict_has (active_connections st') user_id
                \<and> \<not> dict_has (user_heartbeats st') user_id
                \<and> dict_get (heartbeat_tasks st') user_id = None
                \<and> wire st' = wire st
                     @ (if notice_io = IoOk
                        then [(websocket, DisconnectNotice ''heartbeat_error'' notice_time)]
                        else [])
                     @ [(websocket, Close 1011 ''heartbeat_error'')]))
   \<and> (hb_registered st user_id websocket
        \<and> acked_in_time fl (heartbeat_interval st) (ping_timeout st)
              (last_heartbeat st user_id) ps
     \<longrightarrow> active_connections (heartbeat_loop fl user_id ps st) = active_connections st
         \<and> heartbeat_tasks (heartbeat_loop fl user_id ps st) = heartbeat_tasks st)"
  using acked_connection_stays
      [where fl = fl and st = st and user_id = user_id and websocket = websocket and ps = ps]
    expired_connection_removed
      [where fl = fl and st = st and user_id = user_id and now = now and websocket = websocket
         and notice_io = notice_io and notice_time = notice_time]
    fresh_connection_kept
      [where fl = fl and st = st and user_id = user_id and now = now and notice_io = notice_io
         and close_io = close_io and notice_time = notice_time]
    ping_written
      [where st = st and user_id = user_id and now = now and websocket = websocket
         and notice_io = notice_io and close_io = close_io and notice_time = notice_time]
    ping_disconnected
      [where st = st and user_id = user_id and now = now
         and notice_io = notice_io and close_io = close_io and notice_time = notice_time]
    ping_error_evicts
      [where st = st and user_id = user_id and now = now and websocket = websocket
         and notice_io = notice_io and notice_time = notice_time]
  by blast

theorem heartbeat_supervision_witness:
  "fl_sub whole_numbers 41 (last_heartbeat two_conns ''u1'')
     > fl_add whole_numbers (heartbeat_interval two_conns) (ping_timeout two_conns)
   \<and> dict_get (active_connections two_conns) ''u1'' = Some 1
   \<and> (\<exists>st'. heartbeat_check whole_numbers ''u1'' 41 42 IoOk IoOk two_conns = (Break, st')
          \<and> \<not> dict_has (active_connections st') ''u1''
          \<and> wire st' = [(1, DisconnectNotice ''heartbeat_timeout'' 42),
                         (1, Close 1011 ''heartbeat_timeout'')])
   \<and> \<not> fl_sub whole_numbers 41 (last_heartbeat two_conns ''u2'')
         > fl_add whole_numbers (heartbeat_interval two_conns) (ping_timeout two_conns)
   \<and> heartbeat_check whole_numbers ''u2'' 41 42 IoOk IoOk two_conns = (Continue, two_conns)
   \<and> dict_get (active_connections two_conns) ''u2'' = Some 2
   \<and> heartbeat_running two_conns
   \<and> fst (heartbeat_ping ''u2'' 35 36 IoOk IoOk IoOk two_conns) = Continue
   \<and> (\<exists>st'. heartbeat_ping ''u2'' 35 36 IoError IoOk IoOk two_conns = (Break, st')
          \<and> \<not> dict_has (active_connections st') ''u2''
          \<and> wire st' = [(2, DisconnectNotice ''heartbeat_error'' 36),
                         (2, Close 1011 ''heartbeat_error'')])
   \<and> hb_registered two_conns ''u2'' 2
   \<and> acked_in_time whole_numbers (heartbeat_interval two_conns) (ping_timeout two_conns)
         (last_heartbeat two_conns ''u2'') three_passes
   \<and> active_connections (heartbeat_loop whole_numbers ''u2'' three_passes two_conns)
       = [(''u1'', 1), (''u2'', 2)]
   \<and> last_heartbeat (heartbeat_loop whole_numbers ''u2'' three_passes two_conns) ''u2'' = 70"
proof -
  have d1: "hb_registered two_conns ''u2'' 2" by code_simp
  have d2: "acked_in_time whole_numbers (heartbeat_interval two_conns) (ping_timeout two_conns)
         (last_heartbeat two_conns ''u2'') three_passes" by code_simp
  have d3: "active_connections two_conns = [(''u1'', 1), (''u2'', 2)]" by code_simp
  have d4: "last_heartbeat (heartbeat_loop whole_numbers ''u2'' three_passes two_conns) ''u2''
            = 70" by code_simp
  from heartbeat_supervision
         [where fl = whole_numbers and now = 41 and st = two_conns and user_id = "''u2''"
            and websocket = 2 and notice_time = 42 and notice_io = IoOk and close_io = IoOk
            and ps = three_passes]
       d1 d2 d3
  have r5: "active_connections (heartbeat_loop whole_numbers ''u2'' three_passes two_conns)
            = [(''u1'', 1), (''u2'', 2)]" by simp
  have a1: "fl_sub whole_numbers 41 (last_heartbeat two_conns ''u1'')
     > fl_add whole_numbers (heartbeat_interval two_conns) (ping_timeout two_conns)"
    by code_simp
  have a2: "dict_get (active_connections two_conns) ''u1'' = Some 1" by code_simp
  have w0: "wire two_conns = []" by code_simp
  have b1: "\<not> fl_sub whole_numbers 41 (last_heartbeat two_conns ''u2'')
         > fl_add whole_numbers (heartbeat_interval two_conns) (ping_timeout two_conns)"
    by code_simp
  have c1: "dict_get (active_connections two_conns) ''u2'' = Some 2" by code_simp
  have c2: "heartbeat_running two_conns" by code_simp
  from heartbeat_supervision
         [where fl = whole_numbers and now = 41 and st = two_conns and user_id = "''u1''"
            and websocket = 1 and notice_time = 42 and notice_io = IoOk and close_io = IoOk]
       a1 a2 w0
  have r1: "\<exists>st'. heartbeat_check whole_numbers ''u1'' 41 42 IoOk IoOk two_conns = (Break, st')
          \<and> \<not> dict_has (active_connections st') ''u1''
          \<and> wire st' = [(1, DisconnectNotice ''heartbeat_timeout'' 42),
                         (1, Close 1011 ''heartbeat_timeout'')]" by auto
  from heartbeat_supervision
         [where fl = whole_numbers and now = 41 and st = two_conns and user_id = "''u2''"
            and websocket = 2 and notice_time = 42 and notice_io = IoOk and close_io = IoOk]
       b1
  have r2: "heartbeat_check whole_numbers ''u2'' 41 42 IoOk IoOk two_conns
            = (Continue, two_conns)" by simp
  from heartbeat_supervision
         [where fl = whole_numbers and now = 35 and st = two_conns and user_id = "''u2''"
            and websocket = 2 and notice_time = 36 and notice_io = IoOk and close_io = IoOk]
       c1 c2 w0
  have r3: "fst (heartbeat_ping ''u2'' 35 36 IoOk IoOk IoOk two_conns) = Continue"
    and r4: "\<exists>st'. heartbeat_ping ''u2'' 35 36 IoError IoOk IoOk two_conns = (Break, st')
          \<and> \<not> dict_has (active_connections st') ''u2''
          \<and> wire st' = [(2, DisconnectNotice ''heartbeat_error'' 36),
                         (2, Close 1011 ''heartbeat_error'')]" by auto
  from a1 a2 r1 b1 r2 c1 c2 r3 r4 d1 d2 r5 d4 show ?thesis by simp
qed

text \<open>
  As the specification states it, the property fails: the connection \<open>u2\<close> was accepted at
  time 5, so at time 10 the elapsed time 5 does not exceed interval + grace, which is
  40; the write of the ping raises, and the supervisor notifies, closes and removes
  the connection.
\<close>

theorem ping_error_evicts_fresh_connection:
  "last_heartbeat two_conns ''u2'' = 5
   \<and> fl_sub whole_numbers 10 (last_heartbeat two_conns ''u2'') = 5
   \<and> fl_add whole_numbers (heartbeat_interval two_conns) (ping_timeout two_conns) = 40
   \<and> dict_has (active_connections two_conns) ''u2''
   \<and> fst (heartbeat_ping ''u2'' 10 11 IoError IoOk IoOk two_conns) = Break
   \<and> \<not> dict_has (active_connections
          (snd (heartbeat_ping ''u2'' 10 11 IoError IoOk IoOk two_conns))) ''u2''
   \<and> wire (snd (heartbeat_ping ''u2'' 10 11 IoError IoOk IoOk two_conns))
       = [(2, DisconnectNotice ''heartbeat_error'' 11), (2, Close 1011 ''heartbeat_error'')]"
  by code_simp

text \<open>
  One path of the forced disconnect is left out of the statement above: the close of
  the transport raising. The connection \<open>u1\<close> was accepted at time 0 and never
  acknowledged. At the check of time 41 the peer is gone: the notice cannot be sent,
  which is ignored, and the close raises. The handler of line 230 logs the exception,
  the clean-up of line 227 is skipped, and the connection is still registered when
  the loop has ended. The same holds of \<open>u2\<close> when its ping write and then the close
  raise.
\<close>

lemma expired_connection_stays_when_close_raises:
  "last_heartbeat two_conns ''u1'' = 0
   \<and> fl_sub whole_numbers 41 (last_heartbeat two_conns ''u1'') = 41
   \<and> fl_add whole_numbers (heartbeat_interval two_conns) (ping_timeout two_conns) = 40
   \<and> dict_has (active_connections two_conns) ''u1''
   \<and> heartbeat_check whole_numbers ''u1'' 41 42 IoDisconnect IoError two_conns
       = (Break, two_conns)
   \<and> heartbeat_ping ''u2'' 10 11 IoError IoError IoError two_conns = (Break, two_conns)"
  by code_simp

end
